theory Spec2Isabelle
  imports Complex_Main "HOL-Library.Sublist"
begin

section \<open>LlamaLex: a shallow embedding of llamalex.cpp\<close>

text \<open>
  The engine of \<^verbatim>\<open>src/models/ggmlex/cpp/llamalex.cpp\<close> is embedded function by
  function. What the C++ leaves to its environment is made explicit:
  \<^item> \<^verbatim>\<open>std::hash<std::string>\<close> is implementation-defined and is a parameter
    \<open>hash\<close> of every function that reaches \<^verbatim>\<open>get_token_id\<close>;
  \<^item> \<^verbatim>\<open>size_t\<close> values are naturals, \<^verbatim>\<open>int\<close> values are integers, and the
    conversion from \<^verbatim>\<open>size_t\<close> to a 32-bit \<^verbatim>\<open>int\<close> is written out;
  \<^item> the hidden state of \<^verbatim>\<open>rand()\<close> is threaded through the functions that call it;
  \<^item> a remainder by zero, a pointer that cannot be dereferenced and a failed
    \<^verbatim>\<open>new\<close> are values of the type \<open>failure\<close>;
  \<^item> printing to \<^verbatim>\<open>std::cout\<close> is left out.
\<close>

subsection \<open>Failures\<close>

datatype failure =
    DivisionByZero    \<comment> \<open>\<^verbatim>\<open>x % 0\<close>: undefined behaviour, a trap on the usual targets\<close>
  | BadAlloc          \<comment> \<open>\<^verbatim>\<open>std::bad_alloc\<close> thrown by \<^verbatim>\<open>new\<close>\<close>
  | InvalidPointer    \<comment> \<open>use of a null, dangling or wrongly typed pointer: undefined behaviour\<close>

subsection \<open>Integers and their decimal form\<close>

text \<open>The value a 32-bit \<^verbatim>\<open>int\<close> receives from a \<^verbatim>\<open>size_t\<close> (two's complement wrap).\<close>

definition size_t_to_int :: "nat \<Rightarrow> int" where
  "size_t_to_int n =
     (let m = int (n mod 2 ^ 32) in if m < 2 ^ 31 then m else m - 2 ^ 32)"

definition digit_char :: "nat \<Rightarrow> char" where
  "digit_char d = ''0123456789'' ! d"

function nat_digits :: "nat \<Rightarrow> string" where
  "nat_digits n =
     (if n < 10 then [digit_char n] else nat_digits (n div 10) @ [digit_char (n mod 10)])"
  by pat_completeness auto
termination
  by (relation "measure (\<lambda>n. n)") auto

declare nat_digits.simps [simp del]

text \<open>\<^verbatim>\<open>std::to_string(int)\<close>: the decimal digits, after a minus sign when negative.\<close>

definition to_string :: "int \<Rightarrow> string" where
  "to_string i = (if i < 0 then CHR ''-'' # nat_digits (nat (- i)) else nat_digits (nat i))"

subsection \<open>LegalTokenizer\<close>

text \<open>
  Member names of the classes end in an underscore in the source; here they carry the
  class's initials instead (\<^verbatim>\<open>vocab_size_\<close> is \<open>tk_vocab_size\<close>).
\<close>

record LegalTokenizer =
  tk_vocab_size :: nat

definition LegalTokenizer_init :: "nat \<Rightarrow> LegalTokenizer" where
  "LegalTokenizer_init n = \<lparr>tk_vocab_size = n\<rparr>"

text \<open>\<^verbatim>\<open>return std::hash<std::string>{}(word) % vocab_size_;\<close> converted to \<^verbatim>\<open>int\<close>.\<close>

definition get_token_id :: "(string \<Rightarrow> nat) \<Rightarrow> LegalTokenizer \<Rightarrow> string \<Rightarrow> failure + int" where
  "get_token_id hash tk word =
     (if tk_vocab_size tk = 0 then Inl DivisionByZero
      else Inr (size_t_to_int (hash word mod tk_vocab_size tk)))"

definition get_token_str :: "int \<Rightarrow> string" where
  "get_token_str token_id = ''<token_'' @ to_string token_id @ ''>''"

definition is_space :: "char \<Rightarrow> bool" where
  "is_space c = (c = CHR '' '' \<or> c = CHR 0x0A \<or> c = CHR 0x09)"

text \<open>
  The \<^verbatim>\<open>for (char c : text)\<close> loop of \<^verbatim>\<open>tokenize\<close>; its state is the word being
  collected and the tokens pushed so far.
\<close>

fun tokenize_loop ::
  "(string \<Rightarrow> nat) \<Rightarrow> LegalTokenizer \<Rightarrow> string \<Rightarrow> string \<Rightarrow> int list \<Rightarrow> failure + (string \<times> int list)"
where
  "tokenize_loop hash tk [] word tokens = Inr (word, tokens)"
| "tokenize_loop hash tk (c # cs) word tokens =
     (if is_space c then
        (if word \<noteq> [] then
           (case get_token_id hash tk word of
              Inl e \<Rightarrow> Inl e
            | Inr t \<Rightarrow> tokenize_loop hash tk cs [] (tokens @ [t]))
         else tokenize_loop hash tk cs word tokens)
      else tokenize_loop hash tk cs (word @ [c]) tokens)"

definition tokenize :: "(string \<Rightarrow> nat) \<Rightarrow> LegalTokenizer \<Rightarrow> string \<Rightarrow> failure + int list" where
  "tokenize hash tk text =
     (case tokenize_loop hash tk text [] [1] of
        Inl e \<Rightarrow> Inl e
      | Inr (word, tokens) \<Rightarrow>
          (if word \<noteq> [] then
             (case get_token_id hash tk word of
                Inl e \<Rightarrow> Inl e
              | Inr t \<Rightarrow> Inr ((tokens @ [t]) @ [2]))
           else Inr (tokens @ [2])))"

text \<open>
  The loop of \<^verbatim>\<open>detokenize\<close> over the tokens in order; \<open>text\<close> is the string built
  so far.
\<close>

fun detokenize_loop :: "int list \<Rightarrow> string \<Rightarrow> string" where
  "detokenize_loop [] text = text"
| "detokenize_loop (t # ts) text =
     (if t = 1 \<or> t = 2 then detokenize_loop ts text
      else detokenize_loop ts ((if text \<noteq> [] then text @ '' '' else text) @ get_token_str t))"

definition detokenize :: "int list \<Rightarrow> string" where
  "detokenize tokens = detokenize_loop tokens []"

subsection \<open>LlamaLexConfig\<close>

record LlamaLexConfig =
  vocab_size :: nat
  embedding_dim :: nat
  num_layers :: nat
  num_heads :: nat
  ff_dim :: nat
  max_seq_length :: nat
  use_legal_vocab :: bool
  enable_case_law_mode :: bool
  enable_statute_mode :: bool

text \<open>The default member initialisers of the struct.\<close>

definition default_config :: LlamaLexConfig where
  "default_config =
     \<lparr>vocab_size = 50000, embedding_dim = 768, num_layers = 12, num_heads = 12,
      ff_dim = 3072, max_seq_length = 2048, use_legal_vocab = True,
      enable_case_law_mode = False, enable_statute_mode = False\<rparr>"

subsection \<open>MultiHeadAttention\<close>

record MultiHeadAttention =
  mha_embedding_dim :: nat
  mha_num_heads :: nat
  mha_head_dim :: nat

text \<open>
  The constructor: \<^verbatim>\<open>head_dim_ = embedding_dim / num_heads;\<close> and nothing else
  (\<^verbatim>\<open>init_weights\<close> is empty). It tests nothing; only the division itself can go
  wrong, when \<^verbatim>\<open>num_heads\<close> is zero.
\<close>

definition MultiHeadAttention_init :: "nat \<Rightarrow> nat \<Rightarrow> failure + MultiHeadAttention" where
  "MultiHeadAttention_init e h =
     (if h = 0 then Inl DivisionByZero
      else Inr \<lparr>mha_embedding_dim = e, mha_num_heads = h, mha_head_dim = e div h\<rparr>)"

text \<open>\<^verbatim>\<open>forward\<close> returns its input; \<open>'f\<close> stands for \<^verbatim>\<open>float\<close>.\<close>

definition forward :: "MultiHeadAttention \<Rightarrow> 'f list \<Rightarrow> 'f list" where
  "forward att input = input"

subsection \<open>The state of \<^verbatim>\<open>rand()\<close>\<close>

text \<open>
  The C library's generator is a hidden global. Its state is modelled by the sequence of
  values it is going to return and the number of calls made so far; every value lies in
  \<^verbatim>\<open>[0, RAND_MAX]\<close>.
\<close>

definition RAND_MAX :: nat where
  "RAND_MAX = 2147483647"

record rng =
  rng_seq :: "nat \<Rightarrow> nat"
  rng_calls :: nat

definition rand :: "rng \<Rightarrow> nat \<times> rng" where
  "rand g = (rng_seq g (rng_calls g) mod (RAND_MAX + 1), g\<lparr>rng_calls := rng_calls g + 1\<rparr>)"

subsection \<open>LlamaLex\<close>

record LlamaLex =
  ll_config :: LlamaLexConfig
  ll_tokenizer :: LegalTokenizer

text \<open>The constructor: \<^verbatim>\<open>config_(config), tokenizer_(config.vocab_size)\<close>.\<close>

definition LlamaLex_init :: "LlamaLexConfig \<Rightarrow> LlamaLex" where
  "LlamaLex_init config =
     \<lparr>ll_config = config, ll_tokenizer = LegalTokenizer_init (vocab_size config)\<rparr>"

text \<open>
  \<^verbatim>\<open>get_token_embedding\<close>: \<^verbatim>\<open>emb[i] = 0.01f * (rand() / (float)RAND_MAX)\<close> for
  \<^verbatim>\<open>i < embedding_dim\<close>. The float arithmetic is the parameter \<open>fl\<close>, from the
  value of \<^verbatim>\<open>rand()\<close> to the float stored. The token is not read.
\<close>

function emb_loop :: "(nat \<Rightarrow> 'f) \<Rightarrow> nat \<Rightarrow> nat \<Rightarrow> 'f list \<Rightarrow> rng \<Rightarrow> 'f list \<times> rng" where
  "emb_loop fl width i emb g =
     (if i < width then
        (let (r, g') = rand g in emb_loop fl width (i + 1) (emb[i := fl r]) g')
      else (emb, g))"
  by pat_completeness auto
termination
  by (relation "measure (\<lambda>(fl, width, i, emb, g). width - i)") auto

declare emb_loop.simps [simp del]

definition get_token_embedding ::
  "(nat \<Rightarrow> 'f) \<Rightarrow> 'f \<Rightarrow> LlamaLex \<Rightarrow> int \<Rightarrow> rng \<Rightarrow> 'f list \<times> rng"
where
  "get_token_embedding fl zero m token_id g =
     emb_loop fl (embedding_dim (ll_config m)) 0
       (replicate (embedding_dim (ll_config m)) zero) g"

text \<open>The loop of \<^verbatim>\<open>encode\<close> over the tokens, appending each token's embedding.\<close>

fun encode_loop ::
  "(nat \<Rightarrow> 'f) \<Rightarrow> 'f \<Rightarrow> LlamaLex \<Rightarrow> int list \<Rightarrow> 'f list \<Rightarrow> rng \<Rightarrow> 'f list \<times> rng"
where
  "encode_loop fl zero m [] embeddings g = (embeddings, g)"
| "encode_loop fl zero m (token_id # rest) embeddings g =
     (let (token_emb, g') = get_token_embedding fl zero m token_id g
      in encode_loop fl zero m rest (embeddings @ token_emb) g')"

definition encode ::
  "(string \<Rightarrow> nat) \<Rightarrow> (nat \<Rightarrow> 'f) \<Rightarrow> 'f \<Rightarrow> LlamaLex \<Rightarrow> string \<Rightarrow> rng \<Rightarrow> failure + ('f list \<times> rng)"
where
  "encode hash fl zero m text g =
     (case tokenize hash (ll_tokenizer m) text of
        Inl e \<Rightarrow> Inl e
      | Inr tokens \<Rightarrow> Inr (encode_loop fl zero m tokens [] g))"

text \<open>
  The sampling loop of \<^verbatim>\<open>generate\<close>:
  \<^verbatim>\<open>for (i = 0; i < max_length; ++i) { next = rand() % vocab_size; push; if (next == 2) break; }\<close>
\<close>

function generate_loop ::
  "LlamaLex \<Rightarrow> nat \<Rightarrow> nat \<Rightarrow> int list \<Rightarrow> rng \<Rightarrow> failure + (int list \<times> rng)"
where
  "generate_loop m max_length i tokens g =
     (if i < max_length then
        (let (r, g') = rand g in
         if vocab_size (ll_config m) = 0 then Inl DivisionByZero
         else
           (let next_token = size_t_to_int (r mod vocab_size (ll_config m)) in
            if next_token = 2 then Inr (tokens @ [next_token], g')
            else generate_loop m max_length (i + 1) (tokens @ [next_token]) g'))
      else Inr (tokens, g))"
  by pat_completeness auto
termination
  by (relation "measure (\<lambda>(m, max_length, i, tokens, g). max_length - i)") auto

declare generate_loop.simps [simp del]

text \<open>
  \<^verbatim>\<open>generate\<close> up to the call of \<^verbatim>\<open>detokenize\<close>: the tokens of the prompt followed
  by the sampled ones.
\<close>

definition generate_tokens ::
  "(string \<Rightarrow> nat) \<Rightarrow> LlamaLex \<Rightarrow> string \<Rightarrow> nat \<Rightarrow> rng \<Rightarrow> failure + (int list \<times> rng)"
where
  "generate_tokens hash m prompt max_length g =
     (case tokenize hash (ll_tokenizer m) prompt of
        Inl e \<Rightarrow> Inl e
      | Inr tokens \<Rightarrow> generate_loop m max_length 0 tokens g)"

definition generate ::
  "(string \<Rightarrow> nat) \<Rightarrow> LlamaLex \<Rightarrow> string \<Rightarrow> nat \<Rightarrow> rng \<Rightarrow> failure + (string \<times> rng)"
where
  "generate hash m prompt max_length g =
     (case generate_tokens hash m prompt max_length g of
        Inl e \<Rightarrow> Inl e
      | Inr (tokens, g') \<Rightarrow> Inr (detokenize tokens, g'))"

subsection \<open>The foreign boundary\<close>

text \<open>
  The \<^verbatim>\<open>extern "C"\<close> functions allocate with \<^verbatim>\<open>new\<close> and hand out raw pointers. The
  free store is a list of objects: the pointer \<open>p > 0\<close> refers to the object at index
  \<open>p - 1\<close>, \<open>0\<close> is the null pointer, and an address is never handed out twice. The
  allocator can still serve \<open>w_free_bytes\<close> bytes; a larger request throws
  \<^verbatim>\<open>std::bad_alloc\<close>. Only the \<^verbatim>\<open>new\<close> expressions written in the source are charged:
  the allocations made inside \<^verbatim>\<open>std::vector\<close> and \<^verbatim>\<open>std::string\<close> are taken to succeed.
  No function of the source contains a \<^verbatim>\<open>try\<close> block, so a failure of a callee is the
  failure of its caller. A boundary function that yields \<open>Inr\<close> has returned to the
  foreign caller; one that yields \<open>Inl e\<close> has not: the exception \<open>e\<close> unwinds out of the
  \<^verbatim>\<open>extern "C"\<close> function, or the behaviour is undefined.
\<close>

datatype 'f object =
    EngineObj LlamaLex
  | FloatArray "'f list"
  | CharArray string
  | Released

record 'f world =
  w_rng :: rng
  w_heap :: "'f object list"
  w_free_bytes :: nat

definition sizeof_LlamaLex :: nat where
  "sizeof_LlamaLex = 64"

definition sizeof_float :: nat where
  "sizeof_float = 4"

fun object_bytes :: "'f object \<Rightarrow> nat" where
  "object_bytes (EngineObj m) = sizeof_LlamaLex"
| "object_bytes (FloatArray xs) = length xs * sizeof_float"
| "object_bytes (CharArray cs) = length cs"
| "object_bytes Released = 0"

definition operator_new :: "'f object \<Rightarrow> 'f world \<Rightarrow> failure + (nat \<times> 'f world)" where
  "operator_new obj w =
     (if w_free_bytes w < object_bytes obj then Inl BadAlloc
      else Inr (length (w_heap w) + 1,
                w\<lparr>w_heap := w_heap w @ [obj],
                  w_free_bytes := w_free_bytes w - object_bytes obj\<rparr>))"

definition deref :: "'f world \<Rightarrow> nat \<Rightarrow> failure + 'f object" where
  "deref w p =
     (if p = 0 \<or> length (w_heap w) < p then Inl InvalidPointer
      else (case w_heap w ! (p - 1) of Released \<Rightarrow> Inl InvalidPointer | obj \<Rightarrow> Inr obj))"

definition deref_engine :: "'f world \<Rightarrow> nat \<Rightarrow> failure + LlamaLex" where
  "deref_engine w p =
     (case deref w p of Inr (EngineObj m) \<Rightarrow> Inr m | _ \<Rightarrow> Inl InvalidPointer)"

definition release :: "'f world \<Rightarrow> nat \<Rightarrow> 'f world" where
  "release w p =
     w\<lparr>w_heap := (w_heap w)[p - 1 := Released],
       w_free_bytes := w_free_bytes w + object_bytes (w_heap w ! (p - 1))\<rparr>"

text \<open>\<^verbatim>\<open>llamalex_create\<close>: a default config with three fields overwritten, then \<^verbatim>\<open>new\<close>.\<close>

definition llamalex_create :: "nat \<Rightarrow> nat \<Rightarrow> nat \<Rightarrow> 'f world \<Rightarrow> failure + (nat \<times> 'f world)" where
  "llamalex_create v e n w =
     (let config = default_config\<lparr>vocab_size := v, embedding_dim := e, num_layers := n\<rparr>
      in operator_new (EngineObj (LlamaLex_init config)) w)"

text \<open>\<^verbatim>\<open>delete\<close> of a null pointer does nothing.\<close>

definition llamalex_destroy :: "nat \<Rightarrow> 'f world \<Rightarrow> failure + 'f world" where
  "llamalex_destroy handle w =
     (if handle = 0 then Inr w
      else (case deref w handle of
              Inr (EngineObj m) \<Rightarrow> Inr (release w handle)
            | _ \<Rightarrow> Inl InvalidPointer))"

text \<open>
  \<^verbatim>\<open>llamalex_encode\<close>. The argument \<open>text\<close> is \<open>None\<close> for a null \<^verbatim>\<open>const char*\<close>. The
  value stored through \<^verbatim>\<open>out_size\<close> is the second component of the result; the buffer
  holds the copy made by \<^verbatim>\<open>memcpy\<close>.
\<close>

definition llamalex_encode ::
  "(string \<Rightarrow> nat) \<Rightarrow> (nat \<Rightarrow> 'f) \<Rightarrow> 'f \<Rightarrow> nat \<Rightarrow> string option \<Rightarrow> 'f world
     \<Rightarrow> failure + (nat \<times> nat \<times> 'f world)"
where
  "llamalex_encode hash fl zero handle text w =
     (case deref_engine w handle of
        Inl e \<Rightarrow> Inl e
      | Inr model \<Rightarrow>
          (case text of
             None \<Rightarrow> Inl InvalidPointer
           | Some t \<Rightarrow>
               (case encode hash fl zero model t (w_rng w) of
                  Inl e \<Rightarrow> Inl e
                | Inr (embeddings, g') \<Rightarrow>
                    (let out_size = length embeddings in
                     case operator_new (FloatArray embeddings) (w\<lparr>w_rng := g'\<rparr>) of
                       Inl e \<Rightarrow> Inl e
                     | Inr (output, w') \<Rightarrow> Inr (output, out_size, w')))))"

text \<open>
  \<^verbatim>\<open>llamalex_generate\<close>: \<^verbatim>\<open>new char[generated.size() + 1]\<close>, filled by \<^verbatim>\<open>strcpy\<close> with
  the characters and the terminating zero.
\<close>

definition llamalex_generate ::
  "(string \<Rightarrow> nat) \<Rightarrow> nat \<Rightarrow> string option \<Rightarrow> nat \<Rightarrow> 'f world \<Rightarrow> failure + (nat \<times> 'f world)"
where
  "llamalex_generate hash handle prompt max_length w =
     (case deref_engine w handle of
        Inl e \<Rightarrow> Inl e
      | Inr model \<Rightarrow>
          (case prompt of
             None \<Rightarrow> Inl InvalidPointer
           | Some t \<Rightarrow>
               (case generate hash model t max_length (w_rng w) of
                  Inl e \<Rightarrow> Inl e
                | Inr (generated, g') \<Rightarrow>
                    operator_new (CharArray (generated @ [CHR 0x00])) (w\<lparr>w_rng := g'\<rparr>))))"

definition llamalex_free_string :: "nat \<Rightarrow> 'f world \<Rightarrow> failure + 'f world" where
  "llamalex_free_string str w =
     (if str = 0 then Inr w
      else (case deref w str of
              Inr (CharArray cs) \<Rightarrow> Inr (release w str)
            | _ \<Rightarrow> Inl InvalidPointer))"

subsection \<open>Inputs for concrete runs\<close>

text \<open>
  The value of \<^verbatim>\<open>0.01f * (r / (float)RAND_MAX)\<close> in exact arithmetic, to instantiate the
  parameter \<open>fl\<close>. At \<open>r = 0\<close> and \<open>r = RAND_MAX\<close> the float computation gives exactly
  \<^verbatim>\<open>0.0f\<close> and \<^verbatim>\<open>0.01f\<close>, two different floats.
\<close>

definition scale_exact :: "nat \<Rightarrow> rat" where
  "scale_exact r = (1 / 100) * (of_nat r / of_nat RAND_MAX)"

text \<open>A generator whose calls return \<open>0, RAND_MAX, 0, RAND_MAX, \<dots>\<close>\<close>

definition alternating_rng :: rng where
  "alternating_rng = \<lparr>rng_seq = (\<lambda>i. if even i then 0 else RAND_MAX), rng_calls = 0\<rparr>"

text \<open>
  The engine \<^verbatim>\<open>llamalex_create(5000, 2, 4)\<close> builds, and a free store that holds it at
  address 1 and has 100 bytes left.
\<close>

definition small_engine :: LlamaLex where
  "small_engine =
     LlamaLex_init (default_config\<lparr>vocab_size := 5000, embedding_dim := 2, num_layers := 4\<rparr>)"

definition small_world :: "rat world" where
  "small_world = \<lparr>w_rng = alternating_rng, w_heap = [EngineObj small_engine], w_free_bytes = 100\<rparr>"

text \<open>A free store with nothing allocated and 100 bytes left, and one with an engine and no byte left.\<close>

definition empty_world :: "rat world" where
  "empty_world = \<lparr>w_rng = alternating_rng, w_heap = [], w_free_bytes = 100\<rparr>"

definition full_world :: "rat world" where
  "full_world = \<lparr>w_rng = alternating_rng, w_heap = [EngineObj small_engine], w_free_bytes = 0\<rparr>"

text \<open>
  The first four values of glibc's \<^verbatim>\<open>rand()\<close> in a process that never calls \<^verbatim>\<open>srand\<close>
  (the source never does).
\<close>

definition glibc_rng :: rng where
  "glibc_rng =
     \<lparr>rng_seq = (\<lambda>i. if i = 0 then 1804289383 else if i = 1 then 846930886
                     else if i = 2 then 1681692777 else 1714636915),
      rng_calls = 0\<rparr>"

subsection \<open>The tokenizer's contract, in the words of the specification\<close>

text \<open>
  These functions are not translations of source code. They say what the specification
  says the tokenizer computes, for comparison with the loops above: the words of a text
  are its maximal runs of characters other than space, newline and tab, in order; and
  words are joined with one space between neighbours.
\<close>

function split_words :: "string \<Rightarrow> string list" where
  "split_words cs =
     (if dropWhile is_space cs = [] then []
      else takeWhile (\<lambda>c. \<not> is_space c) (dropWhile is_space cs)
           # split_words (dropWhile (\<lambda>c. \<not> is_space c) (dropWhile is_space cs)))"
  by pat_completeness auto
termination
proof (relation "measure length")
  show "wf (measure length)" by simp
next
  fix cs :: string
  assume ne: "dropWhile is_space cs \<noteq> []"
  then obtain x xs where r: "dropWhile is_space cs = x # xs"
    by (cases "dropWhile is_space cs") auto
  have "\<not> is_space x"
    using hd_dropWhile [OF ne] r by simp
  then have "length (dropWhile (\<lambda>c. \<not> is_space c) (x # xs)) \<le> length xs"
    by (simp add: length_dropWhile_le)
  moreover have "length (x # xs) \<le> length cs"
    using length_dropWhile_le [of is_space cs] r by simp
  ultimately show
    "(dropWhile (\<lambda>c. \<not> is_space c) (dropWhile is_space cs), cs) \<in> measure length"
    using r by simp
qed

declare split_words.simps [simp del]

fun join_with_spaces :: "string list \<Rightarrow> string" where
  "join_with_spaces [] = []"
| "join_with_spaces [w] = w"
| "join_with_spaces (w # v # ws) = w @ '' '' @ join_with_spaces (v # ws)"

text \<open>The identifier \<^verbatim>\<open>get_token_id\<close> returns for a word when the vocabulary is not empty.\<close>

definition word_id :: "(string \<Rightarrow> nat) \<Rightarrow> LegalTokenizer \<Rightarrow> string \<Rightarrow> int" where
  "word_id hash tk word = size_t_to_int (hash word mod tk_vocab_size tk)"

text \<open>The test of \<^verbatim>\<open>detokenize\<close>, negated: the tokens it does not skip.\<close>

definition kept :: "int \<Rightarrow> bool" where
  "kept t = (\<not> (t = 1 \<or> t = 2))"

text \<open>
  A stand-in for \<^verbatim>\<open>std::hash<std::string>\<close> in concrete runs: the length of the word
  plus 2, so that a one-letter word gets the identifier 3.
\<close>

definition length_hash :: "string \<Rightarrow> nat" where
  "length_hash w = length w + 2"

section \<open>Properties\<close>

subsection \<open>The tokenizer\<close>

lemma tokenize_loop_extends:
  "tokenize_loop hash tk cs word tokens = Inr (word', tokens') \<Longrightarrow> \<exists>extra. tokens' = tokens @ extra"
proof (induction cs arbitrary: word tokens)
  case Nil
  then show ?case by simp
next
  case (Cons c cs)
  show ?case
  proof (cases "is_space c")
    case False
    with Cons show ?thesis by simp
  next
    case True
    show ?thesis
    proof (cases "word = []")
      case True
      with Cons \<open>is_space c\<close> show ?thesis by simp
    next
      case False
      with Cons.prems \<open>is_space c\<close> obtain t where
        t: "get_token_id hash tk word = Inr t"
        and run: "tokenize_loop hash tk cs [] (tokens @ [t]) = Inr (word', tokens')"
        by (auto split: sum.splits)
      from Cons.IH [OF run] show ?thesis by auto
    qed
  qed
qed

lemma tokenize_loop_total:
  "0 < tk_vocab_size tk \<Longrightarrow> \<exists>r. tokenize_loop hash tk cs word tokens = Inr r"
  by (induction cs arbitrary: word tokens) (auto simp: get_token_id_def)

lemma tokenize_total:
  assumes pos: "0 < tk_vocab_size tk"
  shows "\<exists>ts. tokenize hash tk text = Inr ts"
proof -
  from pos obtain word tokens where "tokenize_loop hash tk text [] [1] = Inr (word, tokens)"
    using tokenize_loop_total [of tk hash "text" "[]" "[1]"] by auto
  with pos show ?thesis
    by (simp add: tokenize_def get_token_id_def)
qed

lemma tokenize_shape:
  assumes "tokenize hash tk text = Inr ts"
  shows "\<exists>mid. ts = 1 # mid @ [2]"
proof -
  from assms obtain word tokens where
    run: "tokenize_loop hash tk text [] [1] = Inr (word, tokens)"
    by (auto simp: tokenize_def split: sum.splits)
  then obtain extra where tokens: "tokens = [1] @ extra"
    using tokenize_loop_extends by blast
  from assms run tokens show ?thesis
    by (auto simp: tokenize_def split: sum.splits if_splits)
qed

text \<open>
  C2. Whatever \<^verbatim>\<open>tokenize\<close> returns is non-empty, starts with BEGIN (1) and ends with
  END (2); the empty text gives exactly BEGIN, END; and with a non-empty vocabulary
  \<^verbatim>\<open>tokenize\<close> returns a sequence for every text (the only way it cannot is the
  remainder by a zero \<^verbatim>\<open>vocab_size_\<close>).
\<close>

theorem tokenize_begin_end:
  "(tokenize hash tk text = Inr ts \<longrightarrow> ts \<noteq> [] \<and> hd ts = 1 \<and> last ts = 2)
   \<and> tokenize hash tk [] = Inr [1, 2]
   \<and> (0 < tk_vocab_size tk \<longrightarrow> (\<exists>ts'. tokenize hash tk text = Inr ts'))"
proof (intro conjI impI)
  assume "tokenize hash tk text = Inr ts"
  then obtain mid where "ts = 1 # mid @ [2]"
    using tokenize_shape by blast
  then show "ts \<noteq> []" and "hd ts = 1" and "last ts = 2" by simp_all
next
  show "tokenize hash tk [] = Inr [1, 2]" by (simp add: tokenize_def)
next
  assume "0 < tk_vocab_size tk"
  then show "\<exists>ts'. tokenize hash tk text = Inr ts'" by (rule tokenize_total)
qed

theorem tokenize_begin_end_witness:
  "tokenize length (LegalTokenizer_init 50000) ''The court'' = Inr [1, 3, 5, 2]
   \<and> [1, 3, 5, 2] \<noteq> ([] :: int list) \<and> hd [1, 3, 5, 2] = (1 :: int) \<and> last [1, 3, 5, 2] = (2 :: int)
   \<and> 0 < tk_vocab_size (LegalTokenizer_init 50000)
   \<and> (\<exists>ts'. tokenize length (LegalTokenizer_init 50000) ''The court'' = Inr ts')"
  using tokenize_begin_end [of length "LegalTokenizer_init 50000" "''The court''" "[1, 3, 5, 2]"]
  by (simp add: tokenize_def LegalTokenizer_init_def get_token_id_def is_space_def
      size_t_to_int_def)

subsection \<open>The attention block\<close>

text \<open>
  C9. \<^verbatim>\<open>MultiHeadAttention::forward\<close> preserves the shape of its input: the output has
  the length of the input, the vector at every position \<open>i\<close> (the \<open>d\<close> floats from offset
  \<open>i * d\<close> of the flat buffer, the layout \<^verbatim>\<open>encode\<close> produces) is the input's, and so is
  the result of passing the input through any list of attention blocks in turn.
\<close>

theorem forward_shape_preserving:
  "length (forward att input) = length input
   \<and> take d (drop (i * d) (forward att input)) = take d (drop (i * d) input)
   \<and> length (fold forward layers input) = length input
   \<and> take d (drop (i * d) (fold forward layers input)) = take d (drop (i * d) input)"
proof -
  have "fold forward layers input = input"
    by (induction layers) (simp_all add: forward_def)
  then show ?thesis by (simp add: forward_def)
qed

subsection \<open>The sampling loop\<close>

lemma rand_calls: "rng_calls (snd (rand g)) = rng_calls g + 1"
  by (simp add: rand_def)

text \<open>The three ways one round of the loop can go, as rewrite rules for concrete runs.\<close>

lemma generate_loop_done:
  "\<not> i < n \<Longrightarrow> generate_loop m n i toks g = Inr (toks, g)"
  by (simp add: generate_loop.simps [of m n i toks g])

lemma generate_loop_end:
  "i < n \<Longrightarrow> vocab_size (ll_config m) \<noteq> 0 \<Longrightarrow>
   size_t_to_int (fst (rand g) mod vocab_size (ll_config m)) = 2 \<Longrightarrow>
   generate_loop m n i toks g = Inr (toks @ [2], snd (rand g))"
  by (simp add: generate_loop.simps [of m n i toks g] split_beta)

lemma generate_loop_more:
  "i < n \<Longrightarrow> vocab_size (ll_config m) \<noteq> 0 \<Longrightarrow>
   size_t_to_int (fst (rand g) mod vocab_size (ll_config m)) \<noteq> 2 \<Longrightarrow>
   generate_loop m n i toks g =
     generate_loop m n (i + 1)
       (toks @ [size_t_to_int (fst (rand g) mod vocab_size (ll_config m))]) (snd (rand g))"
  by (simp add: generate_loop.simps [of m n i toks g] split_beta)

lemma generate_loop_appends:
  "generate_loop m n i toks g = Inr (toks', g') \<Longrightarrow>
     \<exists>app. toks' = toks @ app \<and> length app \<le> n - i \<and> 2 \<notin> set (butlast app)
       \<and> (length app < n - i \<longrightarrow> app \<noteq> [] \<and> last app = 2)
       \<and> rng_calls g' = rng_calls g + length app"
proof (induction m n i toks g rule: generate_loop.induct)
  case (1 m n i toks g)
  show ?case
  proof (cases "i < n")
    case False
    with "1.prems" have "toks' = toks" and "g' = g"
      by (simp_all add: generate_loop_done)
    then show ?thesis using False by simp
  next
    case True
    obtain r g1 where rg: "rand g = (r, g1)" by (cases "rand g")
    from "1.prems" True rg have vs: "vocab_size (ll_config m) \<noteq> 0"
      by (auto simp: generate_loop.simps [of m n i toks g] split: if_splits)
    define nt where "nt = size_t_to_int (r mod vocab_size (ll_config m))"
    have g1: "rng_calls g1 = rng_calls g + 1"
      using rand_calls [of g] rg by simp
    show ?thesis
    proof (cases "nt = 2")
      case True
      with "1.prems" \<open>i < n\<close> rg vs have "toks' = toks @ [nt]" and "g' = g1"
        by (simp_all add: generate_loop.simps [of m n i toks g] nt_def)
      with True g1 \<open>i < n\<close> show ?thesis by simp
    next
      case False
      with "1.prems" \<open>i < n\<close> rg vs have
        run: "generate_loop m n (i + 1) (toks @ [nt]) g1 = Inr (toks', g')"
        by (simp add: generate_loop.simps [of m n i toks g] nt_def)
      from "1.IH" [OF \<open>i < n\<close> refl rg [symmetric] vs nt_def False run]
      obtain app where app: "toks' = (toks @ [nt]) @ app" "length app \<le> n - (i + 1)"
        "2 \<notin> set (butlast app)" "length app < n - (i + 1) \<longrightarrow> app \<noteq> [] \<and> last app = 2"
        "rng_calls g' = rng_calls g1 + length app"
        by blast
      have "toks' = toks @ (nt # app)" using app(1) by simp
      moreover have "length (nt # app) \<le> n - i" using app(2) \<open>i < n\<close> by simp
      moreover have "2 \<notin> set (butlast (nt # app))" using app(3) False by auto
      moreover have "length (nt # app) < n - i \<longrightarrow> nt # app \<noteq> [] \<and> last (nt # app) = 2"
        using app(4) by auto
      moreover have "rng_calls g' = rng_calls g + length (nt # app)" using app(5) g1 by simp
      ultimately show ?thesis by blast
    qed
  qed
qed

lemma generate_loop_total:
  "0 < vocab_size (ll_config m) \<Longrightarrow> \<exists>res. generate_loop m n i toks g = Inr res"
proof (induction m n i toks g rule: generate_loop.induct)
  case (1 m n i toks g)
  show ?case
  proof (cases "i < n")
    case False
    then show ?thesis by (simp add: generate_loop_done)
  next
    case True
    obtain r g1 where rg: "rand g = (r, g1)" by (cases "rand g")
    define nt where "nt = size_t_to_int (r mod vocab_size (ll_config m))"
    from "1.prems" have vs: "vocab_size (ll_config m) \<noteq> 0" by simp
    show ?thesis
    proof (cases "nt = 2")
      case True
      with \<open>i < n\<close> rg vs show ?thesis
        by (simp add: generate_loop.simps [of m n i toks g] nt_def)
    next
      case False
      from "1.IH" [OF \<open>i < n\<close> refl rg [symmetric] vs nt_def False "1.prems"]
      obtain res where "generate_loop m n (i + 1) (toks @ [nt]) g1 = Inr res" by blast
      with False \<open>i < n\<close> rg vs show ?thesis
        by (simp add: generate_loop.simps [of m n i toks g] nt_def)
    qed
  qed
qed

lemma tokenize_loop_Inl:
  "tokenize_loop hash tk cs word tokens = Inl e \<Longrightarrow> e = DivisionByZero \<and> tk_vocab_size tk = 0"
  by (induction cs arbitrary: word tokens)
    (auto simp: get_token_id_def split: if_splits sum.splits)

lemma tokenize_Inl:
  "tokenize hash tk input = Inl e \<Longrightarrow> e = DivisionByZero \<and> tk_vocab_size tk = 0"
  by (auto simp: tokenize_def get_token_id_def split: sum.splits if_splits
      dest: tokenize_loop_Inl)

lemma generate_loop_Inl:
  assumes "generate_loop m n i toks g = Inl e"
  shows "e = DivisionByZero \<and> vocab_size (ll_config m) = 0"
proof (cases "vocab_size (ll_config m) = 0")
  case True
  with assms show ?thesis
    by (auto simp: generate_loop.simps [of m n i toks g] split_beta split: if_splits)
next
  case False
  then obtain res where "generate_loop m n i toks g = Inr res"
    using generate_loop_total [of m n i toks g] by auto
  with assms show ?thesis by simp
qed

lemma generate_Inl:
  assumes "generate hash (LlamaLex_init config) prompt max_length g = Inl e"
  shows "e = DivisionByZero \<and> vocab_size config = 0"
proof -
  let ?m = "LlamaLex_init config"
  have eq: "tk_vocab_size (ll_tokenizer ?m) = vocab_size config" "vocab_size (ll_config ?m) = vocab_size config"
    by (simp_all add: LlamaLex_init_def LegalTokenizer_init_def)
  from assms have "generate_tokens hash ?m prompt max_length g = Inl e"
    by (auto simp: generate_def split: sum.splits)
  then have "tokenize hash (ll_tokenizer ?m) prompt = Inl e
      \<or> (\<exists>ts. generate_loop ?m max_length 0 ts g = Inl e)"
    by (auto simp: generate_tokens_def split: sum.splits)
  then show ?thesis
    using tokenize_Inl generate_loop_Inl eq by metis
qed

text \<open>
  C1. For an engine built from a config with a non-empty vocabulary, every prompt, every
  \<^verbatim>\<open>max_length\<close> and every state of \<^verbatim>\<open>rand()\<close>: \<^verbatim>\<open>generate\<close> returns (the loop is a total
  function, its measure \<^verbatim>\<open>max_length - i\<close>); the tokens it detokenizes are the tokenized
  prompt followed by \<open>appended\<close>, at most \<^verbatim>\<open>max_length\<close> sampled tokens, one per call of
  \<^verbatim>\<open>rand()\<close>; no sampled token before the last is END (2); and when fewer than
  \<^verbatim>\<open>max_length\<close> tokens were appended, the last one is END. The one way \<^verbatim>\<open>generate\<close>
  does not return is the remainder by zero of an engine whose \<^verbatim>\<open>vocab_size\<close> is 0.
\<close>

theorem generate_terminates_bounded:
  "(0 < vocab_size config \<longrightarrow>
      (\<exists>prompt_tokens appended g'.
           tokenize hash (ll_tokenizer (LlamaLex_init config)) prompt = Inr prompt_tokens
         \<and> generate_tokens hash (LlamaLex_init config) prompt max_length g
             = Inr (prompt_tokens @ appended, g')
         \<and> generate hash (LlamaLex_init config) prompt max_length g
             = Inr (detokenize (prompt_tokens @ appended), g')
         \<and> length appended \<le> max_length
         \<and> rng_calls g' = rng_calls g + length appended
         \<and> 2 \<notin> set (butlast appended)
         \<and> (length appended < max_length \<longrightarrow> appended \<noteq> [] \<and> last appended = 2)))
   \<and> (generate hash (LlamaLex_init config0) prompt0 max_length0 g0 = Inl e \<longrightarrow>
        e = DivisionByZero \<and> vocab_size config0 = 0)"
  (is "(?pos \<longrightarrow> ?returns) \<and> (?fails \<longrightarrow> ?zero)")
proof (rule conjI)
  show "?pos \<longrightarrow> ?returns"
  proof
    assume pos: ?pos
    let ?m = "LlamaLex_init config"
    have tk: "0 < tk_vocab_size (ll_tokenizer ?m)" and cf: "0 < vocab_size (ll_config ?m)"
      using pos by (simp_all add: LlamaLex_init_def LegalTokenizer_init_def)
    from tk obtain pt where pt: "tokenize hash (ll_tokenizer ?m) prompt = Inr pt"
      using tokenize_total by blast
    from cf obtain ts g' where run: "generate_loop ?m max_length 0 pt g = Inr (ts, g')"
      using generate_loop_total [of ?m max_length 0 pt g] by auto
    from generate_loop_appends [OF run] obtain app where
      app: "ts = pt @ app" "length app \<le> max_length" "2 \<notin> set (butlast app)"
        "length app < max_length \<longrightarrow> app \<noteq> [] \<and> last app = 2"
        "rng_calls g' = rng_calls g + length app"
      by auto
    have gt: "generate_tokens hash ?m prompt max_length g = Inr (pt @ app, g')"
      using pt run app(1) by (simp add: generate_tokens_def)
    then have "generate hash ?m prompt max_length g = Inr (detokenize (pt @ app), g')"
      by (simp add: generate_def)
    with pt gt app show ?returns by blast
  qed
next
  show "?fails \<longrightarrow> ?zero"
  proof
    assume ?fails
    then show ?zero by (rule generate_Inl)
  qed
qed

text \<open>
  A run of the default config on the prompt \<^verbatim>\<open>a\<close> with \<^verbatim>\<open>max_length = 5\<close>, where
  \<^verbatim>\<open>rand()\<close> returns 7 and then 50002: the second sample is END and the loop stops after
  two of the five rounds. With \<^verbatim>\<open>vocab_size = 0\<close> the same call divides by zero.
\<close>

theorem generate_terminates_bounded_witness:
  "0 < vocab_size default_config
   \<and> generate_tokens length (LlamaLex_init default_config) ''a'' 5
        \<lparr>rng_seq = (\<lambda>i. if i = 0 then 7 else 50002), rng_calls = 0\<rparr>
      = Inr ([1, 1, 2] @ [7, 2], \<lparr>rng_seq = (\<lambda>i. if i = 0 then 7 else 50002), rng_calls = 2\<rparr>)
   \<and> (\<exists>prompt_tokens appended g'.
           tokenize length (ll_tokenizer (LlamaLex_init default_config)) ''a'' = Inr prompt_tokens
         \<and> generate_tokens length (LlamaLex_init default_config) ''a'' 5
              \<lparr>rng_seq = (\<lambda>i. if i = 0 then 7 else 50002), rng_calls = 0\<rparr>
             = Inr (prompt_tokens @ appended, g')
         \<and> generate length (LlamaLex_init default_config) ''a'' 5
              \<lparr>rng_seq = (\<lambda>i. if i = 0 then 7 else 50002), rng_calls = 0\<rparr>
             = Inr (detokenize (prompt_tokens @ appended), g')
         \<and> length appended \<le> 5
         \<and> rng_calls g' = length appended
         \<and> 2 \<notin> set (butlast appended)
         \<and> (length appended < 5 \<longrightarrow> appended \<noteq> [] \<and> last appended = 2))
   \<and> generate length (LlamaLex_init (default_config\<lparr>vocab_size := 0\<rparr>)) ''a'' 5
        \<lparr>rng_seq = (\<lambda>i. if i = 0 then 7 else 50002), rng_calls = 0\<rparr> = Inl DivisionByZero
   \<and> vocab_size (default_config\<lparr>vocab_size := 0\<rparr>) = 0"
proof -
  let ?g = "\<lparr>rng_seq = (\<lambda>i. if i = 0 then 7 else 50002), rng_calls = 0\<rparr>"
  have pos: "0 < vocab_size default_config"
    by (simp add: default_config_def)
  have run: "generate_tokens length (LlamaLex_init default_config) ''a'' 5 ?g
      = Inr ([1, 1, 2] @ [7, 2], \<lparr>rng_seq = (\<lambda>i. if i = 0 then 7 else 50002), rng_calls = 2\<rparr>)"
    by (simp add: generate_tokens_def tokenize_def LlamaLex_init_def LegalTokenizer_init_def
        default_config_def get_token_id_def is_space_def size_t_to_int_def generate_loop_done
        generate_loop_end generate_loop_more rand_def RAND_MAX_def)
  have fails: "generate length (LlamaLex_init (default_config\<lparr>vocab_size := 0\<rparr>)) ''a'' 5 ?g
      = Inl DivisionByZero"
    by (simp add: generate_def generate_tokens_def tokenize_def LlamaLex_init_def
        LegalTokenizer_init_def get_token_id_def is_space_def)
  note inst = generate_terminates_bounded [where config = default_config and hash = length
      and prompt = "''a''" and max_length = 5 and g = ?g
      and ?config0.0 = "default_config\<lparr>vocab_size := 0\<rparr>" and ?prompt0.0 = "''a''"
      and ?max_length0.0 = 5 and ?g0.0 = ?g and e = DivisionByZero]
  from inst pos have
    "\<exists>prompt_tokens appended g'.
           tokenize length (ll_tokenizer (LlamaLex_init default_config)) ''a'' = Inr prompt_tokens
         \<and> generate_tokens length (LlamaLex_init default_config) ''a'' 5 ?g
             = Inr (prompt_tokens @ appended, g')
         \<and> generate length (LlamaLex_init default_config) ''a'' 5 ?g
             = Inr (detokenize (prompt_tokens @ appended), g')
         \<and> length appended \<le> 5
         \<and> rng_calls g' = length appended
         \<and> 2 \<notin> set (butlast appended)
         \<and> (length appended < 5 \<longrightarrow> appended \<noteq> [] \<and> last appended = 2)"
    by simp
  moreover from inst fails have "vocab_size (default_config\<lparr>vocab_size := 0\<rparr>) = 0"
    by blast
  ultimately show ?thesis using pos run fails by blast
qed

subsection \<open>Encoding across the boundary\<close>

lemma emb_loop_done: "\<not> i < width \<Longrightarrow> emb_loop fl width i emb g = (emb, g)"
  by (simp add: emb_loop.simps [of fl width i emb g])

lemma emb_loop_step:
  "i < width \<Longrightarrow>
   emb_loop fl width i emb g = emb_loop fl width (i + 1) (emb[i := fl (fst (rand g))]) (snd (rand g))"
  by (simp add: emb_loop.simps [of fl width i emb g] split_beta)

lemma replicate_2: "replicate 2 x = [x, x]"
  by (simp add: numeral_2_eq_2)

lemma emb_loop_length: "length (fst (emb_loop fl width i emb g)) = length emb"
proof (induction fl width i emb g rule: emb_loop.induct)
  case (1 fl width i emb g)
  show ?case
  proof (cases "i < width")
    case False
    then show ?thesis by (simp add: emb_loop_done)
  next
    case True
    obtain r g1 where rg: "rand g = (r, g1)" by (cases "rand g")
    from "1.IH" [OF True refl rg [symmetric]] True rg show ?thesis
      by (simp add: emb_loop.simps [of fl width i emb g])
  qed
qed

lemma get_token_embedding_length:
  "length (fst (get_token_embedding fl zero m token_id g)) = embedding_dim (ll_config m)"
  by (simp add: get_token_embedding_def emb_loop_length)

lemma encode_loop_length:
  "length (fst (encode_loop fl zero m tokens embeddings g))
     = length embeddings + length tokens * embedding_dim (ll_config m)"
proof (induction tokens arbitrary: embeddings g)
  case Nil
  show ?case by simp
next
  case (Cons token_id rest)
  obtain token_emb g1 where te: "get_token_embedding fl zero m token_id g = (token_emb, g1)"
    by (cases "get_token_embedding fl zero m token_id g")
  then have "length token_emb = embedding_dim (ll_config m)"
    using get_token_embedding_length [of fl zero m token_id g] by simp
  with te Cons.IH [of "embeddings @ token_emb" g1] show ?case by simp
qed

lemma encode_size:
  assumes "encode hash fl zero m t g = Inr (embeddings, g')"
  shows "\<exists>tokens. tokenize hash (ll_tokenizer m) t = Inr tokens
           \<and> length embeddings = length tokens * embedding_dim (ll_config m)"
proof -
  from assms obtain tokens where
    tk: "tokenize hash (ll_tokenizer m) t = Inr tokens"
    and run: "encode_loop fl zero m tokens [] g = (embeddings, g')"
    by (auto simp: encode_def split: sum.splits)
  from run encode_loop_length [of fl zero m tokens "[]" g] tk show ?thesis by simp
qed

lemma operator_new_Inr:
  "operator_new obj w = Inr (p, w') \<Longrightarrow>
     p = length (w_heap w) + 1 \<and> w_heap w' = w_heap w @ [obj] \<and> w_rng w' = w_rng w
     \<and> object_bytes obj \<le> w_free_bytes w"
  by (auto simp: operator_new_def split: if_splits)

lemma deref_fresh:
  "obj \<noteq> Released \<Longrightarrow> w_heap w' = heap @ [obj] \<Longrightarrow> deref w' (length heap + 1) = Inr obj"
  by (cases obj) (simp_all add: deref_def)

text \<open>
  C6. Whenever \<^verbatim>\<open>llamalex_encode\<close> returns, the handle was a live engine, the text was
  not null and tokenized to \<open>tokens\<close>; the value stored through \<^verbatim>\<open>out_size\<close> is
  \<open>length tokens * embedding_dim\<close>; the pointer returned is not null and is a new address
  of the free store, which differs from the old one by exactly the new float array; and
  that array holds \<^verbatim>\<open>out_size\<close> floats. Conversely the call does return, with that
  \<^verbatim>\<open>out_size\<close>, for every live engine and text that tokenizes, when the allocator can
  serve the request.
\<close>

theorem llamalex_encode_out_size:
  "(llamalex_encode hash fl zero handle text_ptr w = Inr (out_ptr, out_size, w') \<longrightarrow>
      (\<exists>model t tokens buf.
          deref_engine w handle = Inr model \<and> text_ptr = Some t
        \<and> tokenize hash (ll_tokenizer model) t = Inr tokens
        \<and> out_size = length tokens * embedding_dim (ll_config model)
        \<and> out_ptr \<noteq> 0 \<and> out_ptr = length (w_heap w) + 1
        \<and> w_heap w' = w_heap w @ [FloatArray buf]
        \<and> deref w' out_ptr = Inr (FloatArray buf)
        \<and> length buf = out_size))
   \<and> (deref_engine w handle = Inr model' \<and> tokenize hash (ll_tokenizer model') t' = Inr tokens'
        \<and> length tokens' * embedding_dim (ll_config model') * sizeof_float \<le> w_free_bytes w \<longrightarrow>
      (\<exists>p w''. llamalex_encode hash fl zero handle (Some t') w
                 = Inr (p, length tokens' * embedding_dim (ll_config model'), w'')))"
proof (intro conjI impI)
  assume run: "llamalex_encode hash fl zero handle text_ptr w = Inr (out_ptr, out_size, w')"
  then obtain model where model: "deref_engine w handle = Inr model"
    by (auto simp: llamalex_encode_def split: sum.splits)
  with run obtain t where t: "text_ptr = Some t"
    by (auto simp: llamalex_encode_def split: option.splits)
  from run model t obtain embeddings g' where
    enc: "encode hash fl zero model t (w_rng w) = Inr (embeddings, g')"
    by (auto simp: llamalex_encode_def split: sum.splits)
  from run model t enc have
    new: "operator_new (FloatArray embeddings) (w\<lparr>w_rng := g'\<rparr>) = Inr (out_ptr, w')"
    and size: "out_size = length embeddings"
    by (auto simp: llamalex_encode_def Let_def split: sum.splits)
  from operator_new_Inr [OF new] have
    out: "out_ptr = length (w_heap w) + 1" and heap: "w_heap w' = w_heap w @ [FloatArray embeddings]"
    by simp_all
  from encode_size [OF enc] obtain tokens where
    tk: "tokenize hash (ll_tokenizer model) t = Inr tokens"
    and len: "length embeddings = length tokens * embedding_dim (ll_config model)"
    by blast
  have "deref w' out_ptr = Inr (FloatArray embeddings)"
    using deref_fresh [OF _ heap] out by simp
  with model t tk len size out heap
  show "\<exists>model t tokens buf.
          deref_engine w handle = Inr model \<and> text_ptr = Some t
        \<and> tokenize hash (ll_tokenizer model) t = Inr tokens
        \<and> out_size = length tokens * embedding_dim (ll_config model)
        \<and> out_ptr \<noteq> 0 \<and> out_ptr = length (w_heap w) + 1
        \<and> w_heap w' = w_heap w @ [FloatArray buf]
        \<and> deref w' out_ptr = Inr (FloatArray buf)
        \<and> length buf = out_size"
    by auto
next
  assume a: "deref_engine w handle = Inr model' \<and> tokenize hash (ll_tokenizer model') t' = Inr tokens'
        \<and> length tokens' * embedding_dim (ll_config model') * sizeof_float \<le> w_free_bytes w"
  obtain embeddings g' where
    el: "encode_loop fl zero model' tokens' [] (w_rng w) = (embeddings, g')"
    by (cases "encode_loop fl zero model' tokens' [] (w_rng w)")
  then have len: "length embeddings = length tokens' * embedding_dim (ll_config model')"
    using encode_loop_length [of fl zero model' tokens' "[]" "w_rng w"] by simp
  from a el have enc: "encode hash fl zero model' t' (w_rng w) = Inr (embeddings, g')"
    by (simp add: encode_def)
  from a len enc show "\<exists>p w''. llamalex_encode hash fl zero handle (Some t') w
                 = Inr (p, length tokens' * embedding_dim (ll_config model'), w'')"
    by (simp add: llamalex_encode_def operator_new_def)
qed

text \<open>
  The engine of \<^verbatim>\<open>llamalex_create(5000, 2, 4)\<close> on the empty text: two tokens, four
  floats, 16 of the 100 free bytes.
\<close>

lemma small_world_encode:
  "llamalex_encode length scale_exact 0 1 (Some '''') small_world
   = Inr (2, 4,
       \<lparr>w_rng = alternating_rng\<lparr>rng_calls := 4\<rparr>,
        w_heap = [EngineObj small_engine, FloatArray [0, 1 / 100, 0, 1 / 100]],
        w_free_bytes = 84\<rparr>)"
  by (simp add: llamalex_encode_def deref_engine_def deref_def encode_def tokenize_def
      small_world_def small_engine_def alternating_rng_def
      LlamaLex_init_def LegalTokenizer_init_def default_config_def get_token_embedding_def
      emb_loop_done emb_loop_step rand_def RAND_MAX_def scale_exact_def operator_new_def
      sizeof_float_def replicate_2)

theorem llamalex_encode_out_size_witness:
  "llamalex_encode length scale_exact 0 1 (Some '''') small_world
     = Inr (2, 4,
         \<lparr>w_rng = alternating_rng\<lparr>rng_calls := 4\<rparr>,
          w_heap = [EngineObj small_engine, FloatArray [0, 1 / 100, 0, 1 / 100]],
          w_free_bytes = 84\<rparr>)
   \<and> deref_engine small_world 1 = Inr small_engine
   \<and> tokenize length (ll_tokenizer small_engine) '''' = Inr [1, 2]
   \<and> length [1, 2 :: int] * embedding_dim (ll_config small_engine) * sizeof_float
        \<le> w_free_bytes small_world
   \<and> (4 :: nat) = length [1, 2 :: int] * embedding_dim (ll_config small_engine)
   \<and> length [0, 1 / 100, 0, 1 / 100 :: rat] = 4"
  using llamalex_encode_out_size [where hash = length and fl = scale_exact and zero = 0
      and handle = 1 and text_ptr = "Some ''''" and w = small_world and out_ptr = 2 and out_size = 4
      and w' = "\<lparr>w_rng = alternating_rng\<lparr>rng_calls := 4\<rparr>,
          w_heap = [EngineObj small_engine, FloatArray [0, 1 / 100, 0, 1 / 100]],
          w_free_bytes = 84\<rparr>"
      and model' = small_engine and t' = "''''" and tokens' = "[1, 2]"]
    small_world_encode
  by (simp add: deref_engine_def deref_def small_world_def small_engine_def tokenize_def
      LlamaLex_init_def LegalTokenizer_init_def default_config_def sizeof_float_def)

subsection \<open>Construction\<close>

text \<open>
  C5 as stated does not hold. The attention block for \<^verbatim>\<open>embedding_dim = 100\<close>,
  \<^verbatim>\<open>num_heads = 7\<close> is constructed, with \<^verbatim>\<open>head_dim = 14\<close>, although 7 does not divide
  100; and \<^verbatim>\<open>llamalex_create(5000, 100, 4)\<close> returns an engine whose config has
  \<^verbatim>\<open>embedding_dim = 100\<close> and \<^verbatim>\<open>num_heads = 12\<close>, with remainder 4.
\<close>

theorem invalid_config_constructs:
  "100 mod 7 \<noteq> (0 :: nat)
   \<and> MultiHeadAttention_init 100 7
       = Inr \<lparr>mha_embedding_dim = 100, mha_num_heads = 7, mha_head_dim = 14\<rparr>
   \<and> llamalex_create 5000 100 4 empty_world
       = Inr (1, \<lparr>w_rng = alternating_rng,
                  w_heap = [EngineObj (LlamaLex_init
                    (default_config\<lparr>vocab_size := 5000, embedding_dim := 100, num_layers := 4\<rparr>))],
                  w_free_bytes = 36\<rparr>)
   \<and> embedding_dim (default_config\<lparr>vocab_size := 5000, embedding_dim := 100, num_layers := 4\<rparr>)
       mod num_heads (default_config\<lparr>vocab_size := 5000, embedding_dim := 100, num_layers := 4\<rparr>) = 4"
  by (simp add: MultiHeadAttention_init_def llamalex_create_def operator_new_def empty_world_def
      sizeof_LlamaLex_def default_config_def)

text \<open>
  C5, amended. Construction tests no divisibility. For every \<^verbatim>\<open>num_heads > 0\<close> the
  attention block is constructed, with \<^verbatim>\<open>head_dim\<close> the truncated quotient
  \<^verbatim>\<open>embedding_dim / num_heads\<close>. \<^verbatim>\<open>llamalex_create\<close> constructs no attention block; when
  its allocation succeeds it returns a non-null handle to an engine with the three
  arguments in its config and \<^verbatim>\<open>num_heads\<close> at the default 12, whatever
  \<^verbatim>\<open>embedding_dim\<close> is.
\<close>

theorem construction_unchecked:
  "(0 < h \<longrightarrow>
      MultiHeadAttention_init e h
        = Inr \<lparr>mha_embedding_dim = e, mha_num_heads = h, mha_head_dim = e div h\<rparr>)
   \<and> (sizeof_LlamaLex \<le> w_free_bytes w \<longrightarrow>
        (\<exists>handle w' m. llamalex_create v e n w = Inr (handle, w') \<and> handle \<noteq> 0
            \<and> deref_engine w' handle = Inr m
            \<and> vocab_size (ll_config m) = v \<and> embedding_dim (ll_config m) = e
            \<and> num_layers (ll_config m) = n \<and> num_heads (ll_config m) = 12))"
  by (simp add: MultiHeadAttention_init_def llamalex_create_def operator_new_def
      deref_engine_def deref_def LlamaLex_init_def default_config_def)

theorem construction_unchecked_witness:
  "0 < (7 :: nat)
   \<and> MultiHeadAttention_init 100 7
       = Inr \<lparr>mha_embedding_dim = 100, mha_num_heads = 7, mha_head_dim = 100 div 7\<rparr>
   \<and> sizeof_LlamaLex \<le> w_free_bytes empty_world
   \<and> (\<exists>handle w' m. llamalex_create 5000 100 4 empty_world = Inr (handle, w') \<and> handle \<noteq> 0
            \<and> deref_engine w' handle = Inr m
            \<and> vocab_size (ll_config m) = 5000 \<and> embedding_dim (ll_config m) = 100
            \<and> num_layers (ll_config m) = 4 \<and> num_heads (ll_config m) = 12)"
  using construction_unchecked [where h = 7 and e = 100 and w = empty_world and v = 5000 and n = 4]
  by (simp add: empty_world_def sizeof_LlamaLex_def)

subsection \<open>Embedding lookup\<close>

lemma glibc_first:
  "get_token_embedding scale_exact 0 small_engine 5 glibc_rng
     = ([scale_exact 1804289383, scale_exact 846930886], glibc_rng\<lparr>rng_calls := 2\<rparr>)"
  by (simp add: get_token_embedding_def small_engine_def LlamaLex_init_def default_config_def
      emb_loop_done emb_loop_step rand_def RAND_MAX_def glibc_rng_def replicate_2)

lemma glibc_second:
  "get_token_embedding scale_exact 0 small_engine 5 (glibc_rng\<lparr>rng_calls := 2\<rparr>)
     = ([scale_exact 1681692777, scale_exact 1714636915], glibc_rng\<lparr>rng_calls := 4\<rparr>)"
  by (simp add: get_token_embedding_def small_engine_def LlamaLex_init_def default_config_def
      emb_loop_done emb_loop_step rand_def RAND_MAX_def glibc_rng_def replicate_2)

text \<open>
  C3 says that two lookups of the same token in one session return the same vector.
  \<^verbatim>\<open>get_token_embedding\<close> does not: it never reads the token and fills the vector from
  the next \<^verbatim>\<open>embedding_dim\<close> values of \<^verbatim>\<open>rand()\<close>. With \<^verbatim>\<open>embedding_dim = 2\<close>, the
  first lookup of token 5 in a fresh process is computed from 1804289383 and 846930886,
  the second from 1681692777 and 1714636915, and the two vectors differ.
\<close>

theorem get_token_embedding_not_repeatable:
  "get_token_embedding scale_exact 0 small_engine 5 glibc_rng
     = ([scale_exact 1804289383, scale_exact 846930886], glibc_rng\<lparr>rng_calls := 2\<rparr>)
   \<and> get_token_embedding scale_exact 0 small_engine 5 (glibc_rng\<lparr>rng_calls := 2\<rparr>)
     = ([scale_exact 1681692777, scale_exact 1714636915], glibc_rng\<lparr>rng_calls := 4\<rparr>)
   \<and> [scale_exact 1804289383, scale_exact 846930886]
       \<noteq> [scale_exact 1681692777, scale_exact 1714636915]"
proof -
  have "scale_exact 1804289383 \<noteq> scale_exact 1681692777"
    by (simp add: scale_exact_def RAND_MAX_def)
  with glibc_first glibc_second show ?thesis by simp
qed

subsection \<open>Failures at the boundary\<close>

lemma operator_new_BadAlloc:
  "w_free_bytes w < object_bytes obj \<Longrightarrow> operator_new obj w = Inl BadAlloc"
  by (simp add: operator_new_def)

lemma operator_new_nonnull: "operator_new obj w = Inr (p, w') \<Longrightarrow> 0 < p"
  by (auto simp: operator_new_def split: if_splits)

lemma full_world_generate:
  "generate length small_engine '''' 0 alternating_rng = Inr ('''', alternating_rng)"
  by (simp add: generate_def generate_tokens_def tokenize_def generate_loop_done
      detokenize_def)

lemma full_world_encode:
  "encode length scale_exact 0 small_engine '''' alternating_rng
     = Inr ([0, 1 / 100, 0, 1 / 100], alternating_rng\<lparr>rng_calls := 4\<rparr>)"
  by (simp add: encode_def tokenize_def small_engine_def alternating_rng_def
      LlamaLex_init_def LegalTokenizer_init_def default_config_def get_token_embedding_def
      emb_loop_done emb_loop_step rand_def RAND_MAX_def scale_exact_def replicate_2)

lemma empty_world_create:
  "llamalex_create 5000 2 4 empty_world
     = Inr (1, \<lparr>w_rng = alternating_rng, w_heap = [EngineObj small_engine], w_free_bytes = 36\<rparr>)"
  by (simp add: llamalex_create_def operator_new_def empty_world_def small_engine_def
      sizeof_LlamaLex_def)

lemma small_world_generate:
  "llamalex_generate length 1 (Some '''') 0 small_world
     = Inr (2, \<lparr>w_rng = alternating_rng,
                w_heap = [EngineObj small_engine, CharArray [CHR 0x00]], w_free_bytes = 99\<rparr>)"
  using full_world_generate
  by (simp add: llamalex_generate_def deref_engine_def deref_def small_world_def operator_new_def)

lemma full_world_engine: "deref_engine full_world 1 = Inr small_engine"
  by (simp add: deref_engine_def deref_def full_world_def)

text \<open>
  C8 as stated does not hold. With no byte left in the free store, the \<^verbatim>\<open>new\<close> of
  \<^verbatim>\<open>llamalex_create\<close>, of \<^verbatim>\<open>llamalex_encode\<close> and of \<^verbatim>\<open>llamalex_generate\<close> throws, and
  \<^verbatim>\<open>std::bad_alloc\<close> leaves each of the three functions: none of them returns, so none
  returns null.
\<close>

theorem bad_alloc_crosses_boundary:
  "llamalex_create 5000 2 4 full_world = Inl BadAlloc
   \<and> llamalex_encode length scale_exact 0 1 (Some '''') full_world = Inl BadAlloc
   \<and> llamalex_generate length 1 (Some '''') 0 full_world = Inl BadAlloc"
  using full_world_generate full_world_encode
  by (simp add: llamalex_create_def llamalex_encode_def llamalex_generate_def operator_new_def
      full_world_def sizeof_LlamaLex_def sizeof_float_def deref_engine_def deref_def)

text \<open>
  C8, amended. No boundary function catches a failure, and none returns a null pointer.
  When \<^verbatim>\<open>llamalex_create\<close>, \<^verbatim>\<open>llamalex_encode\<close> or \<^verbatim>\<open>llamalex_generate\<close> returns, the
  pointer is not null; when the memory left is less than what their \<^verbatim>\<open>new\<close> asks for
  (the engine, four bytes per float, the string and its terminating zero),
  \<^verbatim>\<open>std::bad_alloc\<close> leaves the function. \<^verbatim>\<open>llamalex_destroy\<close> and
  \<^verbatim>\<open>llamalex_free_string\<close> return on a null pointer and change nothing.
\<close>

theorem boundary_failures_propagate:
  "(llamalex_create v e n w1 = Inr (p1, w1') \<longrightarrow> p1 \<noteq> 0)
   \<and> (w_free_bytes w2 < sizeof_LlamaLex \<longrightarrow> llamalex_create v e n w2 = Inl BadAlloc)
   \<and> (llamalex_encode hash fl zero h3 t3 w3 = Inr (p3, sz, w3') \<longrightarrow> p3 \<noteq> 0)
   \<and> (deref_engine w4 h4 = Inr m4 \<and> encode hash fl zero m4 t4 (w_rng w4) = Inr (embs, g4)
        \<and> w_free_bytes w4 < length embs * sizeof_float
      \<longrightarrow> llamalex_encode hash fl zero h4 (Some t4) w4 = Inl BadAlloc)
   \<and> (llamalex_generate hash h5 t5 n5 (w5 :: 'f world) = Inr (p5, w5') \<longrightarrow> p5 \<noteq> 0)
   \<and> (deref_engine w6 h6 = Inr m6 \<and> generate hash m6 t6 n6 (w_rng w6) = Inr (s6, g6)
        \<and> w_free_bytes w6 < length s6 + 1
      \<longrightarrow> llamalex_generate hash h6 (Some t6) n6 (w6 :: 'f world) = Inl BadAlloc)
   \<and> llamalex_destroy 0 (w7 :: 'f world) = Inr w7
   \<and> llamalex_free_string 0 w7 = Inr w7"
proof (intro conjI impI)
  assume "llamalex_create v e n w1 = Inr (p1, w1')"
  then show "p1 \<noteq> 0"
    by (auto simp: llamalex_create_def dest: operator_new_nonnull)
next
  assume "w_free_bytes w2 < sizeof_LlamaLex"
  then show "llamalex_create v e n w2 = Inl BadAlloc"
    by (simp add: llamalex_create_def operator_new_BadAlloc)
next
  assume "llamalex_encode hash fl zero h3 t3 w3 = Inr (p3, sz, w3')"
  then show "p3 \<noteq> 0"
    by (auto simp: llamalex_encode_def Let_def split: sum.splits option.splits
        dest: operator_new_nonnull)
next
  assume "deref_engine w4 h4 = Inr m4 \<and> encode hash fl zero m4 t4 (w_rng w4) = Inr (embs, g4)
        \<and> w_free_bytes w4 < length embs * sizeof_float"
  then show "llamalex_encode hash fl zero h4 (Some t4) w4 = Inl BadAlloc"
    by (simp add: llamalex_encode_def operator_new_BadAlloc)
next
  assume "llamalex_generate hash h5 t5 n5 w5 = Inr (p5, w5')"
  then show "p5 \<noteq> 0"
    by (auto simp: llamalex_generate_def split: sum.splits option.splits
        dest: operator_new_nonnull)
next
  assume "deref_engine w6 h6 = Inr m6 \<and> generate hash m6 t6 n6 (w_rng w6) = Inr (s6, g6)
        \<and> w_free_bytes w6 < length s6 + 1"
  then show "llamalex_generate hash h6 (Some t6) n6 w6 = Inl BadAlloc"
    by (simp add: llamalex_generate_def operator_new_BadAlloc)
next
  show "llamalex_destroy 0 w7 = Inr w7" by (simp add: llamalex_destroy_def)
next
  show "llamalex_free_string 0 w7 = Inr w7" by (simp add: llamalex_free_string_def)
qed

theorem boundary_failures_propagate_witness:
  "llamalex_create 5000 2 4 empty_world
     = Inr (1, \<lparr>w_rng = alternating_rng, w_heap = [EngineObj small_engine], w_free_bytes = 36\<rparr>)
   \<and> w_free_bytes full_world < sizeof_LlamaLex
   \<and> llamalex_create 5000 2 4 full_world = Inl BadAlloc
   \<and> llamalex_encode length scale_exact 0 1 (Some '''') small_world
     = Inr (2, 4,
         \<lparr>w_rng = alternating_rng\<lparr>rng_calls := 4\<rparr>,
          w_heap = [EngineObj small_engine, FloatArray [0, 1 / 100, 0, 1 / 100]],
          w_free_bytes = 84\<rparr>)
   \<and> deref_engine full_world 1 = Inr small_engine
   \<and> encode length scale_exact 0 small_engine '''' (w_rng full_world)
     = Inr ([0, 1 / 100, 0, 1 / 100], alternating_rng\<lparr>rng_calls := 4\<rparr>)
   \<and> w_free_bytes full_world < length [0, 1 / 100, 0, 1 / 100 :: rat] * sizeof_float
   \<and> llamalex_encode length scale_exact 0 1 (Some '''') full_world = Inl BadAlloc
   \<and> llamalex_generate length 1 (Some '''') 0 small_world
     = Inr (2, \<lparr>w_rng = alternating_rng,
                w_heap = [EngineObj small_engine, CharArray [CHR 0x00]], w_free_bytes = 99\<rparr>)
   \<and> generate length small_engine '''' 0 (w_rng full_world) = Inr ('''', alternating_rng)
   \<and> w_free_bytes full_world < length '''' + 1
   \<and> llamalex_generate length 1 (Some '''') 0 full_world = Inl BadAlloc
   \<and> llamalex_destroy 0 full_world = Inr full_world
   \<and> llamalex_free_string 0 full_world = Inr full_world"
proof -
  have rng: "w_rng full_world = alternating_rng" and bytes: "w_free_bytes full_world = 0"
    by (simp_all add: full_world_def)
  note inst = boundary_failures_propagate [where v = 5000 and e = 2 and n = 4
      and ?w1.0 = empty_world and ?p1.0 = 1
      and ?w1' = "\<lparr>w_rng = alternating_rng, w_heap = [EngineObj small_engine], w_free_bytes = 36\<rparr>"
      and ?w2.0 = full_world
      and hash = length and fl = scale_exact and zero = 0
      and ?h3.0 = 1 and ?t3.0 = "Some ''''" and ?w3.0 = small_world and ?p3.0 = 2 and sz = 4
      and ?w3' = "\<lparr>w_rng = alternating_rng\<lparr>rng_calls := 4\<rparr>,
          w_heap = [EngineObj small_engine, FloatArray [0, 1 / 100, 0, 1 / 100]],
          w_free_bytes = 84\<rparr>"
      and ?w4.0 = full_world and ?h4.0 = 1 and ?m4.0 = small_engine and ?t4.0 = "''''"
      and embs = "[0, 1 / 100, 0, 1 / 100]" and ?g4.0 = "alternating_rng\<lparr>rng_calls := 4\<rparr>"
      and ?h5.0 = 1 and ?t5.0 = "Some ''''" and ?n5.0 = 0 and ?w5.0 = small_world and ?p5.0 = 2
      and ?w5' = "\<lparr>w_rng = alternating_rng,
                w_heap = [EngineObj small_engine, CharArray [CHR 0x00]], w_free_bytes = 99\<rparr>"
      and ?w6.0 = full_world and ?h6.0 = 1 and ?m6.0 = small_engine and ?t6.0 = "''''"
      and ?n6.0 = 0 and ?s6.0 = "''''" and ?g6.0 = alternating_rng
      and ?w7.0 = full_world]
  from inst empty_world_create small_world_encode small_world_generate full_world_engine
    full_world_encode full_world_generate
  show ?thesis
    by (simp add: rng bytes sizeof_LlamaLex_def sizeof_float_def)
qed

subsection \<open>Words and tokens\<close>

lemma split_words_Nil: "split_words [] = []"
  by (simp add: split_words.simps [of "[]"])

lemma split_words_space: "is_space c \<Longrightarrow> split_words (c # cs) = split_words cs"
  by (simp add: split_words.simps [of "c # cs"] split_words.simps [of cs])

lemma split_words_word:
  assumes "word \<noteq> []" and "\<forall>c \<in> set word. \<not> is_space c" and "is_space c"
  shows "split_words (word @ c # cs) = word # split_words cs"
proof -
  from assms(1) obtain x xs where word: "word = x # xs" by (cases word) auto
  with assms(2) have x: "\<not> is_space x" by simp
  have d: "dropWhile is_space (word @ c # cs) = word @ c # cs"
    using word x by simp
  have t: "takeWhile (\<lambda>c. \<not> is_space c) (word @ c # cs) = word"
    using assms(2,3) by (simp add: takeWhile_append2)
  have r: "dropWhile (\<lambda>c. \<not> is_space c) (word @ c # cs) = c # cs"
    using assms(2,3) by (simp add: dropWhile_append2)
  have "split_words (word @ c # cs) = word # split_words (c # cs)"
    using d t r assms(1) by (simp add: split_words.simps [of "word @ c # cs"])
  with assms(3) show ?thesis by (simp add: split_words_space)
qed

lemma split_words_single:
  assumes "\<forall>c \<in> set word. \<not> is_space c"
  shows "split_words word = (if word = [] then [] else [word])"
proof (cases word)
  case Nil
  then show ?thesis by (simp add: split_words_Nil)
next
  case (Cons x xs)
  with assms have x: "\<not> is_space x" by simp
  have t: "takeWhile (\<lambda>c. \<not> is_space c) word = word"
    using assms by (simp add: takeWhile_eq_all_conv)
  have r: "dropWhile (\<lambda>c. \<not> is_space c) word = []"
    using assms by simp
  have d: "dropWhile is_space word = word" using Cons x by simp
  have ne: "word \<noteq> []" using Cons by simp
  have "split_words word =
      (if dropWhile is_space word = [] then []
       else takeWhile (\<lambda>c. \<not> is_space c) (dropWhile is_space word)
            # split_words (dropWhile (\<lambda>c. \<not> is_space c) (dropWhile is_space word)))"
    by (rule split_words.simps)
  also have "\<dots> = word # split_words []"
    unfolding d t r using ne by simp
  finally show ?thesis using ne by (simp add: split_words_Nil)
qed

lemma get_token_id_word_id:
  "0 < tk_vocab_size tk \<Longrightarrow> get_token_id hash tk word = Inr (word_id hash tk word)"
  by (simp add: get_token_id_def word_id_def)

lemma tokenize_loop_words:
  assumes "0 < tk_vocab_size tk"
  shows "\<forall>c \<in> set word. \<not> is_space c \<Longrightarrow>
    \<exists>w' tokens'. tokenize_loop hash tk cs word tokens = Inr (w', tokens')
       \<and> tokens' @ (if w' = [] then [] else [word_id hash tk w'])
           = tokens @ map (word_id hash tk) (split_words (word @ cs))"
proof (induction cs arbitrary: word tokens)
  case Nil
  then show ?case by (simp add: split_words_single)
next
  case (Cons c cs)
  show ?case
  proof (cases "is_space c")
    case False
    with Cons.prems have "\<forall>a \<in> set (word @ [c]). \<not> is_space a" by simp
    from Cons.IH [OF this, of tokens] False show ?thesis by simp
  next
    case True
    show ?thesis
    proof (cases "word = []")
      case True
      have "\<forall>a \<in> set ([] :: string). \<not> is_space a" by simp
      from Cons.IH [OF this, of tokens] True \<open>is_space c\<close> show ?thesis
        by (simp add: split_words_space)
    next
      case False
      have "\<forall>a \<in> set ([] :: string). \<not> is_space a" by simp
      from Cons.IH [OF this, of "tokens @ [word_id hash tk word]"] False \<open>is_space c\<close>
        Cons.prems assms
      show ?thesis
        by (simp add: split_words_word get_token_id_word_id)
    qed
  qed
qed

lemma tokenize_words:
  assumes "0 < tk_vocab_size tk"
  shows "tokenize hash tk text = Inr (1 # map (word_id hash tk) (split_words text) @ [2])"
proof -
  have "\<forall>c \<in> set ([] :: string). \<not> is_space c" by simp
  from tokenize_loop_words [OF assms this, of hash "text" "[1]"]
  obtain w' tokens' where run: "tokenize_loop hash tk text [] [1] = Inr (w', tokens')"
    and eq: "tokens' @ (if w' = [] then [] else [word_id hash tk w'])
           = [1] @ map (word_id hash tk) (split_words text)"
    by auto
  show ?thesis
  proof (cases "w' = []")
    case True
    with run eq show ?thesis by (simp add: tokenize_def)
  next
    case False
    with run eq assms show ?thesis
      by (simp add: tokenize_def get_token_id_word_id)
  qed
qed

lemma split_words_replicate: "split_words (concat (replicate n ''a '')) = replicate n ''a''"
proof (induction n)
  case 0
  show ?case by (simp add: split_words_Nil)
next
  case (Suc n)
  have "split_words (''a'' @ CHR '' '' # concat (replicate n ''a ''))
          = ''a'' # split_words (concat (replicate n ''a ''))"
    by (rule split_words_word) (simp_all add: is_space_def)
  with Suc show ?case by simp
qed

lemma ex_split: "split_words ''a b c'' = [''a'', ''b'', ''c'']"
  by (simp add: split_words.simps is_space_def)

text \<open>
  C4 as stated does not hold. With \<^verbatim>\<open>max_seq_length = 4\<close> the three-word text
  \<^verbatim>\<open>a b c\<close> is tokenized to five tokens, and with the default config
  (\<^verbatim>\<open>max_seq_length = 2048\<close>) a text of 2047 words is tokenized to 2049 tokens; both
  calls return, neither fails.
\<close>

theorem tokenize_exceeds_max_seq_length:
  "tokenize length_hash (ll_tokenizer (LlamaLex_init (default_config\<lparr>max_seq_length := 4\<rparr>))) ''a b c''
     = Inr [1, 3, 3, 3, 2]
   \<and> max_seq_length (ll_config (LlamaLex_init (default_config\<lparr>max_seq_length := 4\<rparr>))) = 4
   \<and> \<not> length [1, 3, 3, 3, 2 :: int] \<le> 4
   \<and> tokenize length_hash (ll_tokenizer (LlamaLex_init default_config)) (concat (replicate 2047 ''a ''))
     = Inr (1 # replicate 2047 3 @ [2])
   \<and> max_seq_length (ll_config (LlamaLex_init default_config)) = 2048
   \<and> length (1 # replicate 2047 (3 :: int) @ [2]) = 2049"
proof -
  have small: "tokenize length_hash (ll_tokenizer (LlamaLex_init (default_config\<lparr>max_seq_length := 4\<rparr>))) ''a b c''
     = Inr [1, 3, 3, 3, 2]"
    by (simp add: tokenize_def LlamaLex_init_def LegalTokenizer_init_def default_config_def
        get_token_id_def is_space_def size_t_to_int_def length_hash_def)
  have pos: "0 < tk_vocab_size (ll_tokenizer (LlamaLex_init default_config))"
    by (simp add: LlamaLex_init_def LegalTokenizer_init_def default_config_def)
  have id: "word_id length_hash (ll_tokenizer (LlamaLex_init default_config)) ''a'' = 3"
    by (simp add: word_id_def LlamaLex_init_def LegalTokenizer_init_def default_config_def
        size_t_to_int_def length_hash_def)
  have big: "tokenize length_hash (ll_tokenizer (LlamaLex_init default_config)) (concat (replicate 2047 ''a ''))
     = Inr (1 # replicate 2047 3 @ [2])"
    using id by (simp add: tokenize_words [OF pos] split_words_replicate map_replicate)
  from small big show ?thesis
    by (simp add: LlamaLex_init_def default_config_def)
qed

text \<open>
  C4, amended. \<^verbatim>\<open>tokenize\<close> neither truncates nor rejects: its result does not depend
  on \<^verbatim>\<open>max_seq_length\<close>, and for a non-empty vocabulary it returns BEGIN, the identifier
  of each whitespace-delimited word of the text in order, END; so the length of the
  result is the number of words plus 2, whatever \<^verbatim>\<open>max_seq_length\<close> is.
\<close>

theorem tokenize_ignores_max_seq_length:
  "tokenize hash (ll_tokenizer (LlamaLex_init (config\<lparr>max_seq_length := k\<rparr>))) input
     = tokenize hash (ll_tokenizer (LlamaLex_init config)) input
   \<and> (0 < vocab_size config \<longrightarrow>
        (\<exists>ts. tokenize hash (ll_tokenizer (LlamaLex_init config)) input = Inr ts
           \<and> ts = 1 # map (word_id hash (ll_tokenizer (LlamaLex_init config))) (split_words input) @ [2]
           \<and> length ts = length (split_words input) + 2))"
proof (intro conjI impI)
  show "tokenize hash (ll_tokenizer (LlamaLex_init (config\<lparr>max_seq_length := k\<rparr>))) input
     = tokenize hash (ll_tokenizer (LlamaLex_init config)) input"
    by (simp add: LlamaLex_init_def)
next
  assume "0 < vocab_size config"
  then have "0 < tk_vocab_size (ll_tokenizer (LlamaLex_init config))"
    by (simp add: LlamaLex_init_def LegalTokenizer_init_def)
  from tokenize_words [OF this, of hash input]
  show "\<exists>ts. tokenize hash (ll_tokenizer (LlamaLex_init config)) input = Inr ts
           \<and> ts = 1 # map (word_id hash (ll_tokenizer (LlamaLex_init config))) (split_words input) @ [2]
           \<and> length ts = length (split_words input) + 2"
    by simp
qed

theorem tokenize_ignores_max_seq_length_witness:
  "tokenize length_hash (ll_tokenizer (LlamaLex_init (default_config\<lparr>max_seq_length := 4\<rparr>))) ''a b c''
     = tokenize length_hash (ll_tokenizer (LlamaLex_init default_config)) ''a b c''
   \<and> 0 < vocab_size default_config
   \<and> split_words ''a b c'' = [''a'', ''b'', ''c'']
   \<and> tokenize length_hash (ll_tokenizer (LlamaLex_init default_config)) ''a b c'' = Inr [1, 3, 3, 3, 2]
   \<and> [1, 3, 3, 3, 2]
       = 1 # map (word_id length_hash (ll_tokenizer (LlamaLex_init default_config))) (split_words ''a b c'') @ [2]
   \<and> length [1, 3, 3, 3, 2 :: int] = length (split_words ''a b c'') + 2"
  using tokenize_ignores_max_seq_length [where hash = length_hash and config = default_config
      and k = 4 and input = "''a b c''"] ex_split
  by (simp add: default_config_def word_id_def LlamaLex_init_def LegalTokenizer_init_def
      size_t_to_int_def length_hash_def)

subsection \<open>Detokenizing\<close>

lemma nat_digits_small: "n < 10 \<Longrightarrow> nat_digits n = [digit_char n]"
  by (simp add: nat_digits.simps [of n])

lemma nat_digits_big:
  "\<not> n < 10 \<Longrightarrow> nat_digits n = nat_digits (n div 10) @ [digit_char (n mod 10)]"
  by (simp add: nat_digits.simps [of n])

lemma digit_char_cases:
  assumes "(d :: nat) < 10"
  shows "d = 0 \<or> d = 1 \<or> d = 2 \<or> d = 3 \<or> d = 4 \<or> d = 5 \<or> d = 6 \<or> d = 7 \<or> d = 8 \<or> d = 9"
  using assms by arith

lemma digit_char_in: "d < 10 \<Longrightarrow> digit_char d \<in> set ''0123456789''"
  using digit_char_cases [of d] by (auto simp: digit_char_def)

lemma digit_char_1: "d < 10 \<Longrightarrow> digit_char d = CHR ''1'' \<Longrightarrow> d = 1"
  using digit_char_cases [of d] by (auto simp: digit_char_def)

lemma digit_char_2: "d < 10 \<Longrightarrow> digit_char d = CHR ''2'' \<Longrightarrow> d = 2"
  using digit_char_cases [of d] by (auto simp: digit_char_def)

lemma nat_digits_chars: "set (nat_digits n) \<subseteq> set ''0123456789''"
proof (induction n rule: nat_digits.induct)
  case (1 n)
  show ?case
  proof (cases "n < 10")
    case True
    then show ?thesis using digit_char_in [of n] by (simp add: nat_digits_small)
  next
    case False
    have "n mod 10 < 10" by simp
    from digit_char_in [OF this] "1.IH" [OF False] False show ?thesis
      by (simp add: nat_digits_big)
  qed
qed

lemma nat_digits_nonempty: "nat_digits n \<noteq> []"
  by (cases "n < 10") (simp_all add: nat_digits_small nat_digits_big)

lemma nat_digits_single: "nat_digits n = [c] \<Longrightarrow> n < 10 \<and> c = digit_char n"
proof (cases "n < 10")
  case True
  assume "nat_digits n = [c]"
  with True show ?thesis by (simp add: nat_digits_small)
next
  case False
  assume "nat_digits n = [c]"
  with False have "nat_digits (n div 10) = []" by (simp add: nat_digits_big)
  with nat_digits_nonempty show ?thesis by blast
qed

lemma nat_digits_plain:
  assumes "c \<in> set (nat_digits n)"
  shows "c \<noteq> CHR ''<'' \<and> c \<noteq> CHR ''>'' \<and> c \<noteq> CHR '' ''"
proof -
  from assms nat_digits_chars have "c \<in> set ''0123456789''" by blast
  then show ?thesis by auto
qed

lemma to_string_plain:
  assumes "c \<in> set (to_string i)"
  shows "c \<noteq> CHR ''<'' \<and> c \<noteq> CHR ''>'' \<and> c \<noteq> CHR '' ''"
proof (cases "i < 0")
  case True
  with assms have "c = CHR ''-'' \<or> c \<in> set (nat_digits (nat (- i)))"
    by (simp add: to_string_def)
  then show ?thesis using nat_digits_plain by auto
next
  case False
  with assms have "c \<in> set (nat_digits (nat i))"
    by (simp add: to_string_def)
  then show ?thesis by (rule nat_digits_plain)
qed

lemma to_string_nonempty: "to_string i \<noteq> []"
  by (simp add: to_string_def nat_digits_nonempty)

lemma to_string_1: "to_string i = ''1'' \<Longrightarrow> i = 1"
proof -
  assume a: "to_string i = ''1''"
  then have nn: "\<not> i < 0" by (auto simp: to_string_def)
  with a have "nat_digits (nat i) = [CHR ''1'']" by (simp add: to_string_def)
  from nat_digits_single [OF this] have "nat i = 1"
    using digit_char_1 [of "nat i"] by simp
  with nn show ?thesis by simp
qed

lemma to_string_2: "to_string i = ''2'' \<Longrightarrow> i = 2"
proof -
  assume a: "to_string i = ''2''"
  then have nn: "\<not> i < 0" by (auto simp: to_string_def)
  with a have "nat_digits (nat i) = [CHR ''2'']" by (simp add: to_string_def)
  from nat_digits_single [OF this] have "nat i = 2"
    using digit_char_2 [of "nat i"] by simp
  with nn show ?thesis by simp
qed

lemma to_string_one: "to_string 1 = ''1''" and to_string_two: "to_string 2 = ''2''"
  by (simp_all add: to_string_def nat_digits_small digit_char_def)

lemma get_token_str_nonempty: "get_token_str t \<noteq> []"
  by (simp add: get_token_str_def)

lemma get_token_str_no_space: "CHR '' '' \<notin> set (get_token_str t)"
  using to_string_plain [of "CHR '' ''" t] by (auto simp: get_token_str_def)

lemma get_token_str_hd: "hd (get_token_str t) = CHR ''<''"
  and get_token_str_last: "last (get_token_str t) = CHR ''>''"
  by (simp_all add: get_token_str_def)

lemma join_Cons:
  "join_with_spaces (w # ws) = (if ws = [] then w else w @ CHR '' '' # join_with_spaces ws)"
  by (cases ws) simp_all

lemma detokenize_loop_join:
  "detokenize_loop ts acc =
     (if filter kept ts = [] then acc
      else if acc = [] then join_with_spaces (map get_token_str (filter kept ts))
      else acc @ CHR '' '' # join_with_spaces (map get_token_str (filter kept ts)))"
proof (induction ts arbitrary: acc)
  case Nil
  show ?case by simp
next
  case (Cons t ts)
  show ?case
  proof (cases "kept t")
    case False
    then have "t = 1 \<or> t = 2" by (simp add: kept_def)
    then have "detokenize_loop (t # ts) acc = detokenize_loop ts acc" by auto
    with Cons.IH [of acc] False show ?thesis by simp
  next
    case True
    let ?acc' = "(if acc \<noteq> [] then acc @ '' '' else acc) @ get_token_str t"
    have ne: "?acc' \<noteq> []" by (simp add: get_token_str_nonempty)
    from True have "\<not> (t = 1 \<or> t = 2)" by (simp add: kept_def)
    then have step: "detokenize_loop (t # ts) acc = detokenize_loop ts ?acc'"
      by simp
    show ?thesis
      unfolding step Cons.IH [of ?acc'] using True ne
      by (simp add: join_Cons)
  qed
qed

lemma detokenize_join:
  "detokenize ts = join_with_spaces (map get_token_str (filter kept ts))"
  by (simp add: detokenize_def detokenize_loop_join)

lemma sublist_skip:
  "c \<notin> set xs \<Longrightarrow> sublist (c # p) (xs @ ys) = sublist (c # p) ys"
  by (induction xs) (auto simp: sublist_Cons_right)

lemma join_ends:
  assumes "ws \<noteq> []" and "\<forall>w \<in> set ws. w \<noteq> []"
  shows "join_with_spaces ws \<noteq> [] \<and> hd (join_with_spaces ws) = hd (hd ws)
         \<and> last (join_with_spaces ws) = last (last ws)"
  using assms
proof (induction ws rule: join_with_spaces.induct)
  case 1
  then show ?case by simp
next
  case (2 w)
  then show ?case by simp
next
  case (3 w v ws)
  then show ?case by simp
qed

lemma join_single_spaced:
  assumes "\<forall>w \<in> set ws. w \<noteq> [] \<and> CHR '' '' \<notin> set w"
  shows "\<not> sublist ''  '' (join_with_spaces ws)"
  using assms
proof (induction ws rule: join_with_spaces.induct)
  case 1
  show ?case by simp
next
  case (2 w)
  then have "CHR '' '' \<notin> set w" by simp
  from sublist_skip [OF this, of "'' ''" "[]"] show ?case by simp
next
  case (3 w v ws)
  let ?rest = "join_with_spaces (v # ws)"
  from "3.prems" have w: "CHR '' '' \<notin> set w" and vs: "\<forall>u \<in> set (v # ws). u \<noteq> []"
    and v: "v \<noteq> []" "CHR '' '' \<notin> set v"
    by simp_all
  from join_ends [OF _ vs] have rest: "?rest \<noteq> []" "hd ?rest = hd v" by simp_all
  with v have hd: "hd ?rest \<noteq> CHR '' ''"
    by (cases v) auto
  from "3.IH" "3.prems" have ih: "\<not> sublist ''  '' ?rest" by simp
  have "sublist ''  '' (w @ CHR '' '' # ?rest) = sublist ''  '' (CHR '' '' # ?rest)"
    by (rule sublist_skip [OF w])
  also have "\<dots> = (prefix ''  '' (CHR '' '' # ?rest) \<or> sublist ''  '' ?rest)"
    by (rule sublist_Cons_right)
  also have "\<dots> = False"
    using ih hd rest(1) by (cases ?rest) auto
  finally show ?case by simp
qed

lemma to_string_sentinel:
  assumes "s = 1 \<or> s = 2" and "to_string t = to_string s"
  shows "t = s"
  using assms to_string_1 [of t] to_string_2 [of t]
  by (auto simp: to_string_one to_string_two)

lemma token_str_prefix:
  assumes s: "s = 1 \<or> s = 2"
    and p: "prefix (get_token_str s) (get_token_str t @ rest)"
  shows "t = s"
proof -
  from s obtain c where c: "to_string s = [c]"
    by (auto simp: to_string_one to_string_two)
  from p have p': "prefix (c # ''>'') (to_string t @ ''>'' @ rest)"
    by (simp add: get_token_str_def c)
  obtain x d where d: "to_string t = x # d"
    using to_string_nonempty [of t] by (cases "to_string t") auto
  with p' have x: "x = c" and p'': "prefix ''>'' (d @ ''>'' @ rest)" by simp_all
  have "d = []"
  proof (cases d)
    case Nil
    then show ?thesis .
  next
    case (Cons y d')
    with p'' have "y = CHR ''>''" by simp
    moreover have "y \<in> set (to_string t)" using d Cons by simp
    ultimately show ?thesis using to_string_plain [of y t] by simp
  qed
  with d x c have "to_string t = to_string s" by simp
  with s show ?thesis by (rule to_string_sentinel)
qed

lemma token_str_sublist:
  assumes s: "s = 1 \<or> s = 2"
    and sub: "sublist (get_token_str s) (get_token_str t @ rest)"
  shows "t = s \<or> sublist (get_token_str s) rest"
proof -
  let ?body = "''token_'' @ to_string t @ ''>''"
  have pat: "get_token_str s = CHR ''<'' # (''token_'' @ to_string s @ ''>'')"
    by (simp add: get_token_str_def)
  have whole: "get_token_str t @ rest = CHR ''<'' # (?body @ rest)"
    by (simp add: get_token_str_def)
  have no_lt: "CHR ''<'' \<notin> set ?body"
    using to_string_plain [of "CHR ''<''" t] by auto
  from sub have "prefix (get_token_str s) (get_token_str t @ rest)
      \<or> sublist (get_token_str s) (?body @ rest)"
    unfolding whole by (simp add: sublist_Cons_right)
  then show ?thesis
  proof
    assume "prefix (get_token_str s) (get_token_str t @ rest)"
    with s have "t = s" by (rule token_str_prefix)
    then show ?thesis ..
  next
    assume "sublist (get_token_str s) (?body @ rest)"
    then have "sublist (get_token_str s) rest"
      unfolding pat using sublist_skip [OF no_lt] by simp
    then show ?thesis ..
  qed
qed

lemma token_str_not_in_join:
  assumes s: "s = 1 \<or> s = 2"
  shows "s \<notin> set ts \<Longrightarrow> \<not> sublist (get_token_str s) (join_with_spaces (map get_token_str ts))"
proof (induction ts)
  case Nil
  show ?case by (simp add: get_token_str_nonempty)
next
  case (Cons t ts)
  then have ts: "t \<noteq> s" and ih: "\<not> sublist (get_token_str s) (join_with_spaces (map get_token_str ts))"
    by auto
  show ?case
  proof
    assume sub: "sublist (get_token_str s) (join_with_spaces (map get_token_str (t # ts)))"
    show False
    proof (cases "ts = []")
      case True
      with sub have "sublist (get_token_str s) (get_token_str t @ [])" by simp
      from token_str_sublist [OF s this] ts show False
        by (simp add: get_token_str_nonempty)
    next
      case False
      let ?rest = "join_with_spaces (map get_token_str ts)"
      from False sub have "sublist (get_token_str s) (get_token_str t @ CHR '' '' # ?rest)"
        by (simp add: join_Cons)
      from token_str_sublist [OF s this] ts
      have "sublist (get_token_str s) ([CHR '' ''] @ ?rest)" by simp
      moreover have "get_token_str s = CHR ''<'' # (''token_'' @ to_string s @ ''>'')"
        by (simp add: get_token_str_def)
      ultimately have "sublist (get_token_str s) ?rest"
        using sublist_skip [of "CHR ''<''" "[CHR '' '']" "''token_'' @ to_string s @ ''>''" ?rest]
        by simp
      with ih show False ..
    qed
  qed
qed

lemma detokenize_no_sentinel:
  assumes "s = 1 \<or> s = 2"
  shows "\<not> sublist (get_token_str s) (detokenize ts)"
proof -
  from assms have "s \<notin> set (filter kept ts)" by (auto simp: kept_def)
  from token_str_not_in_join [OF assms this] show ?thesis
    by (simp add: detokenize_join)
qed

lemma get_token_str_plain:
  "get_token_str t \<noteq> [] \<and> CHR '' '' \<notin> set (get_token_str t)"
  by (simp add: get_token_str_nonempty get_token_str_no_space)

lemma join_no_outer_space:
  assumes ws: "ws \<noteq> []" and all: "\<forall>w \<in> set ws. w \<noteq> [] \<and> CHR '' '' \<notin> set w"
  shows "hd (join_with_spaces ws) \<noteq> CHR '' '' \<and> last (join_with_spaces ws) \<noteq> CHR '' ''"
proof -
  from all have "\<forall>w \<in> set ws. w \<noteq> []" by blast
  from join_ends [OF ws this] have
    h: "hd (join_with_spaces ws) = hd (hd ws)" and l: "last (join_with_spaces ws) = last (last ws)"
    by simp_all
  have "hd ws \<in> set ws" using ws by (rule hd_in_set)
  with all have first: "hd ws \<noteq> []" "CHR '' '' \<notin> set (hd ws)" by blast+
  have "last ws \<in> set ws" using ws by (rule last_in_set)
  with all have final: "last ws \<noteq> []" "CHR '' '' \<notin> set (last ws)" by blast+
  have "hd (hd ws) \<in> set (hd ws)" using first(1) by (rule hd_in_set)
  moreover have "last (last ws) \<in> set (last ws)" using final(1) by (rule last_in_set)
  ultimately show ?thesis using first(2) final(2) h l by metis
qed

lemma detokenize_shape:
  "detokenize tokens = join_with_spaces (map get_token_str (filter kept tokens))
   \<and> \<not> sublist ''  '' (detokenize tokens)
   \<and> (detokenize tokens \<noteq> [] \<longrightarrow>
        hd (detokenize tokens) \<noteq> CHR '' '' \<and> last (detokenize tokens) \<noteq> CHR '' '')"
proof -
  let ?ws = "map get_token_str (filter kept tokens)"
  have all: "\<forall>w \<in> set ?ws. w \<noteq> [] \<and> CHR '' '' \<notin> set w"
    using get_token_str_plain by auto
  have "hd (join_with_spaces ?ws) \<noteq> CHR '' '' \<and> last (join_with_spaces ?ws) \<noteq> CHR '' ''"
    if "join_with_spaces ?ws \<noteq> []"
  proof -
    from that have "?ws \<noteq> []" by auto
    then show ?thesis using all by (rule join_no_outer_space)
  qed
  with join_single_spaced [OF all] show ?thesis
    by (simp add: detokenize_join)
qed

lemma filter_kept_tokens:
  assumes "\<forall>t \<in> set mid. kept t"
  shows "filter kept (1 # mid @ [2]) = mid"
  using assms by (simp add: kept_def filter_id_conv)

lemma token_str_digit: "0 \<le> t \<Longrightarrow> t < 10 \<Longrightarrow> get_token_str t = ''<token_'' @ [digit_char (nat t)] @ ''>''"
  by (simp add: get_token_str_def to_string_def nat_digits_small)

lemma colliding_tokenize:
  "tokenize length (LegalTokenizer_init 50000) ''a bc'' = Inr [1, 1, 2, 2]"
  by (simp add: tokenize_def LegalTokenizer_init_def get_token_id_def is_space_def
      size_t_to_int_def)

lemma colliding_split: "split_words ''a bc'' = [''a'', ''bc'']"
  by (simp add: split_words.simps is_space_def)

text \<open>
  C7 as stated does not hold. With a hash that sends the word \<^verbatim>\<open>a\<close> to 1 and the word
  \<^verbatim>\<open>bc\<close> to 2 (here the length of the word), \<^verbatim>\<open>tokenize\<close> returns BEGIN, 1, 2, END
  for the text \<^verbatim>\<open>a bc\<close>. Without the BEGIN in front and the END at the back, the two
  tokens that remain have the string forms \<^verbatim>\<open><token_1>\<close> and \<^verbatim>\<open><token_2>\<close>; but
  \<^verbatim>\<open>detokenize\<close> returns the empty string, because it skips the two word tokens as well.
\<close>

theorem detokenize_drops_colliding_words:
  "tokenize length (LegalTokenizer_init 50000) ''a bc'' = Inr [1, 1, 2, 2]
   \<and> split_words ''a bc'' = [''a'', ''bc'']
   \<and> word_id length (LegalTokenizer_init 50000) ''a'' = 1
   \<and> word_id length (LegalTokenizer_init 50000) ''bc'' = 2
   \<and> butlast (tl [1, 1, 2, 2 :: int]) = [1, 2]
   \<and> join_with_spaces (map get_token_str (butlast (tl [1, 1, 2, 2]))) = ''<token_1> <token_2>''
   \<and> detokenize [1, 1, 2, 2] = []
   \<and> detokenize [1, 1, 2, 2] \<noteq> join_with_spaces (map get_token_str (butlast (tl [1, 1, 2, 2])))"
proof -
  have ids: "word_id length (LegalTokenizer_init 50000) ''a'' = 1"
    "word_id length (LegalTokenizer_init 50000) ''bc'' = 2"
    by (simp_all add: word_id_def LegalTokenizer_init_def size_t_to_int_def)
  have mid: "butlast (tl [1, 1, 2, 2 :: int]) = [1, 2]" by simp
  have joined: "join_with_spaces (map get_token_str (butlast (tl [1, 1, 2, 2]))) = ''<token_1> <token_2>''"
    by (simp add: token_str_digit digit_char_def)
  have empty: "detokenize [1, 1, 2, 2] = []"
    by (simp add: detokenize_def)
  have "detokenize [1, 1, 2, 2] \<noteq> join_with_spaces (map get_token_str (butlast (tl [1, 1, 2, 2])))"
    unfolding joined empty by simp
  with colliding_tokenize colliding_split ids mid joined empty show ?thesis by blast
qed

lemma tokenize_inner:
  assumes "tokenize hash tk input = Inr tokens"
  shows "filter kept tokens = filter kept (butlast (tl tokens))"
proof -
  from assms obtain mid where "tokens = 1 # mid @ [2]"
    using tokenize_shape by blast
  then show ?thesis by (simp add: kept_def butlast_append)
qed

text \<open>
  C7, amended. For every token sequence \<^verbatim>\<open>tokenize\<close> returns, \<^verbatim>\<open>detokenize\<close> drops the
  BEGIN in front and the END at the back and, of the tokens between them, every token
  whose identifier is 1 or 2 (a word whose hash is 1 or 2 is dropped like a marker); it
  returns the string forms of the tokens that remain, in order, joined with one space
  between neighbours: the result has no two spaces in a row and neither starts nor ends
  with a space. When no word of the text hashes to 1 or 2, nothing but the BEGIN and the
  END is dropped, and the result is the joined string forms of the identifiers of the
  words of the text.
\<close>

theorem detokenize_tokenize_joined:
  "(tokenize hash tk input = Inr tokens \<longrightarrow>
       detokenize tokens
         = join_with_spaces (map get_token_str (filter kept (butlast (tl tokens))))
     \<and> detokenize tokens = join_with_spaces (map get_token_str (filter kept tokens))
     \<and> \<not> sublist ''  '' (detokenize tokens)
     \<and> (detokenize tokens \<noteq> [] \<longrightarrow>
          hd (detokenize tokens) \<noteq> CHR '' '' \<and> last (detokenize tokens) \<noteq> CHR '' ''))
   \<and> (0 < tk_vocab_size tk \<and> (\<forall>w \<in> set (split_words input). kept (word_id hash tk w)) \<longrightarrow>
        (\<exists>tokens'. tokenize hash tk input = Inr tokens'
           \<and> detokenize tokens'
               = join_with_spaces (map (\<lambda>w. get_token_str (word_id hash tk w)) (split_words input))))"
  (is "(?ran \<longrightarrow> ?inner \<and> ?shape) \<and> (?clean \<longrightarrow> ?words)")
proof (rule conjI)
  show "?ran \<longrightarrow> ?inner \<and> ?shape"
  proof
    assume ran: ?ran
    have shape: ?shape by (rule detokenize_shape)
    have "detokenize tokens = join_with_spaces (map get_token_str (filter kept tokens))"
      by (rule detokenize_join)
    also have "filter kept tokens = filter kept (butlast (tl tokens))"
      using ran by (rule tokenize_inner)
    finally have inner: ?inner .
    from inner shape show "?inner \<and> ?shape" by (rule conjI)
  qed
next
  show "?clean \<longrightarrow> ?words"
  proof
    assume a: ?clean
    let ?mid = "map (word_id hash tk) (split_words input)"
    from a have tok: "tokenize hash tk input = Inr (1 # ?mid @ [2])"
      by (simp add: tokenize_words)
    from a have "\<forall>t \<in> set ?mid. kept t" by simp
    then have "filter kept (1 # ?mid @ [2]) = ?mid" by (rule filter_kept_tokens)
    then have "detokenize (1 # ?mid @ [2])
        = join_with_spaces (map (\<lambda>w. get_token_str (word_id hash tk w)) (split_words input))"
      by (simp add: detokenize_join comp_def)
    with tok show ?words by blast
  qed
qed

lemma sample_split: "split_words ''The court  held'' = [''The'', ''court'', ''held'']"
  by (simp add: split_words.simps is_space_def)

lemma sample_tokenize:
  "tokenize length_hash (LegalTokenizer_init 50000) ''The court  held'' = Inr [1, 5, 7, 6, 2]"
  by (simp add: tokenize_def LegalTokenizer_init_def get_token_id_def is_space_def
      size_t_to_int_def length_hash_def)

lemma sample_detokenize: "detokenize [1, 5, 7, 6, 2] = ''<token_5> <token_7> <token_6>''"
  by (simp add: detokenize_def token_str_digit digit_char_def)

text \<open>
  Two runs: a text none of whose words hashes to 1 or 2, and the text \<^verbatim>\<open>a bc\<close> under
  the hash above, where both words are dropped.
\<close>

theorem detokenize_tokenize_joined_witness:
  "tokenize length_hash (LegalTokenizer_init 50000) ''The court  held'' = Inr [1, 5, 7, 6, 2]
   \<and> detokenize [1, 5, 7, 6, 2] = ''<token_5> <token_7> <token_6>''
   \<and> detokenize [1, 5, 7, 6, 2]
       = join_with_spaces (map get_token_str (filter kept (butlast (tl [1, 5, 7, 6, 2]))))
   \<and> detokenize [1, 5, 7, 6, 2] = join_with_spaces (map get_token_str (filter kept [1, 5, 7, 6, 2]))
   \<and> \<not> sublist ''  '' (detokenize [1, 5, 7, 6, 2])
   \<and> detokenize [1, 5, 7, 6, 2] \<noteq> []
   \<and> hd (detokenize [1, 5, 7, 6, 2]) \<noteq> CHR '' ''
   \<and> last (detokenize [1, 5, 7, 6, 2]) \<noteq> CHR '' ''
   \<and> 0 < tk_vocab_size (LegalTokenizer_init 50000)
   \<and> split_words ''The court  held'' = [''The'', ''court'', ''held'']
   \<and> kept (word_id length_hash (LegalTokenizer_init 50000) ''The'')
   \<and> kept (word_id length_hash (LegalTokenizer_init 50000) ''court'')
   \<and> kept (word_id length_hash (LegalTokenizer_init 50000) ''held'')
   \<and> (\<exists>tokens'. tokenize length_hash (LegalTokenizer_init 50000) ''The court  held'' = Inr tokens'
        \<and> detokenize tokens'
            = join_with_spaces (map (\<lambda>w. get_token_str (word_id length_hash (LegalTokenizer_init 50000) w))
                (split_words ''The court  held'')))
   \<and> tokenize length (LegalTokenizer_init 50000) ''a bc'' = Inr [1, 1, 2, 2]
   \<and> filter kept (butlast (tl [1, 1, 2, 2])) = []
   \<and> detokenize [1, 1, 2, 2]
       = join_with_spaces (map get_token_str (filter kept (butlast (tl [1, 1, 2, 2]))))"
proof -
  let ?tk = "LegalTokenizer_init 50000"
  have ids: "word_id length_hash ?tk ''The'' = 5" "word_id length_hash ?tk ''court'' = 7"
    "word_id length_hash ?tk ''held'' = 6"
    by (simp_all add: word_id_def LegalTokenizer_init_def size_t_to_int_def length_hash_def)
  have k: "kept (word_id length_hash ?tk ''The'')" "kept (word_id length_hash ?tk ''court'')"
    "kept (word_id length_hash ?tk ''held'')"
    by (simp_all add: ids kept_def)
  have pos: "0 < tk_vocab_size ?tk"
    by (simp add: LegalTokenizer_init_def)
  have ne: "detokenize [1, 5, 7, 6, 2] \<noteq> []"
    by (simp add: sample_detokenize)
  have clean: "\<forall>w \<in> set (split_words ''The court  held''). kept (word_id length_hash ?tk w)"
    using k by (simp add: sample_split)
  note inst = detokenize_tokenize_joined [where hash = length_hash and tk = ?tk
      and input = "''The court  held''" and tokens = "[1, 5, 7, 6, 2]"]
  from inst sample_tokenize have
    shape: "detokenize [1, 5, 7, 6, 2]
        = join_with_spaces (map get_token_str (filter kept (butlast (tl [1, 5, 7, 6, 2]))))"
      "detokenize [1, 5, 7, 6, 2] = join_with_spaces (map get_token_str (filter kept [1, 5, 7, 6, 2]))"
      "\<not> sublist ''  '' (detokenize [1, 5, 7, 6, 2])"
      "detokenize [1, 5, 7, 6, 2] \<noteq> [] \<longrightarrow>
          hd (detokenize [1, 5, 7, 6, 2]) \<noteq> CHR '' '' \<and> last (detokenize [1, 5, 7, 6, 2]) \<noteq> CHR '' ''"
    by blast+
  from inst pos clean have
    words: "\<exists>tokens'. tokenize length_hash ?tk ''The court  held'' = Inr tokens'
        \<and> detokenize tokens'
            = join_with_spaces (map (\<lambda>w. get_token_str (word_id length_hash ?tk w))
                (split_words ''The court  held''))"
    by blast
  from shape(4) ne have ends: "hd (detokenize [1, 5, 7, 6, 2]) \<noteq> CHR '' ''"
    "last (detokenize [1, 5, 7, 6, 2]) \<noteq> CHR '' ''" by blast+
  have dropped: "filter kept (butlast (tl [1, 1, 2, 2])) = []"
    by (simp add: kept_def)
  from detokenize_tokenize_joined [where hash = length and tk = ?tk
      and input = "''a bc''" and tokens = "[1, 1, 2, 2]"] colliding_tokenize
  have collide: "detokenize [1, 1, 2, 2]
       = join_with_spaces (map get_token_str (filter kept (butlast (tl [1, 1, 2, 2]))))"
    by blast
  from sample_tokenize sample_detokenize shape(1,2,3) ne ends pos sample_split k words
    colliding_tokenize dropped collide
  show ?thesis by blast
qed

lemma sentinel_strs: "get_token_str 1 = ''<token_1>''" "get_token_str 2 = ''<token_2>''"
  by (simp_all add: get_token_str_def to_string_one to_string_two)

lemma detokenize_drop:
  assumes "s = 1 \<or> s = 2"
  shows "detokenize (xs @ s # ys) = detokenize (xs @ ys)"
proof -
  from assms have "\<not> kept s" by (simp add: kept_def)
  then show ?thesis by (simp add: detokenize_join)
qed

text \<open>
  C10. \<^verbatim>\<open>detokenize\<close> skips the identifiers 1 and 2 at every position of its input:
  its result is the joined string forms of the other tokens, and deleting a 1 or a 2
  anywhere in the input does not change it. So neither \<^verbatim>\<open><token_1>\<close> nor
  \<^verbatim>\<open><token_2>\<close> occurs in any result of \<^verbatim>\<open>detokenize\<close>, nor in any string
  \<^verbatim>\<open>generate\<close> returns.
\<close>

theorem detokenize_skips_sentinels:
  "detokenize tokens = join_with_spaces (map get_token_str (filter kept tokens))
   \<and> (s = 1 \<or> s = 2 \<longrightarrow> detokenize (xs @ s # ys) = detokenize (xs @ ys))
   \<and> get_token_str 1 = ''<token_1>'' \<and> get_token_str 2 = ''<token_2>''
   \<and> \<not> sublist ''<token_1>'' (detokenize tokens) \<and> \<not> sublist ''<token_2>'' (detokenize tokens)
   \<and> (generate hash m prompt max_length g = Inr (out, g') \<longrightarrow>
        \<not> sublist ''<token_1>'' out \<and> \<not> sublist ''<token_2>'' out)"
proof -
  have none: "\<not> sublist ''<token_1>'' (detokenize ts) \<and> \<not> sublist ''<token_2>'' (detokenize ts)" for ts
    using detokenize_no_sentinel [of 1 ts] detokenize_no_sentinel [of 2 ts]
    unfolding sentinel_strs by simp
  have gen: "\<not> sublist ''<token_1>'' out \<and> \<not> sublist ''<token_2>'' out"
    if "generate hash m prompt max_length g = Inr (out, g')"
  proof -
    from that obtain ts where "out = detokenize ts"
      by (auto simp: generate_def split: sum.splits)
    with none [of ts] show ?thesis by blast
  qed
  from detokenize_join [of tokens] detokenize_drop [of s xs ys] sentinel_strs none [of tokens] gen
  show ?thesis by blast
qed

lemma sample_generate:
  "generate length_hash (LlamaLex_init default_config) ''a'' 5
      \<lparr>rng_seq = (\<lambda>i. if i = 0 then 7 else 50002), rng_calls = 0\<rparr>
   = Inr (''<token_3> <token_7>'', \<lparr>rng_seq = (\<lambda>i. if i = 0 then 7 else 50002), rng_calls = 2\<rparr>)"
proof -
  have "generate_tokens length_hash (LlamaLex_init default_config) ''a'' 5
      \<lparr>rng_seq = (\<lambda>i. if i = 0 then 7 else 50002), rng_calls = 0\<rparr>
   = Inr ([1, 3, 2, 7, 2], \<lparr>rng_seq = (\<lambda>i. if i = 0 then 7 else 50002), rng_calls = 2\<rparr>)"
    by (simp add: generate_tokens_def tokenize_def LlamaLex_init_def LegalTokenizer_init_def
        default_config_def get_token_id_def is_space_def size_t_to_int_def generate_loop_done
        generate_loop_end generate_loop_more rand_def RAND_MAX_def length_hash_def)
  moreover have "detokenize [1, 3, 2, 7, 2] = ''<token_3> <token_7>''"
    by (simp add: detokenize_def token_str_digit digit_char_def)
  ultimately show ?thesis by (simp add: generate_def)
qed

theorem detokenize_skips_sentinels_witness:
  "detokenize [1, 3, 2, 7, 2] = ''<token_3> <token_7>''
   \<and> detokenize ([1, 3] @ 2 # [7, 2]) = detokenize ([1, 3] @ [7, 2])
   \<and> generate length_hash (LlamaLex_init default_config) ''a'' 5
        \<lparr>rng_seq = (\<lambda>i. if i = 0 then 7 else 50002), rng_calls = 0\<rparr>
      = Inr (''<token_3> <token_7>'', \<lparr>rng_seq = (\<lambda>i. if i = 0 then 7 else 50002), rng_calls = 2\<rparr>)
   \<and> \<not> sublist ''<token_1>'' ''<token_3> <token_7>''
   \<and> \<not> sublist ''<token_2>'' ''<token_3> <token_7>''"
proof -
  have d: "detokenize [1, 3, 2, 7, 2] = ''<token_3> <token_7>''"
    by (simp add: detokenize_def token_str_digit digit_char_def)
  note inst = detokenize_skips_sentinels [where tokens = "[1, 3, 2, 7, 2]" and s = 2
      and xs = "[1, 3]" and ys = "[7, 2]" and hash = length_hash
      and m = "LlamaLex_init default_config" and prompt = "''a''" and max_length = 5
      and g = "\<lparr>rng_seq = (\<lambda>i. if i = 0 then 7 else 50002), rng_calls = 0\<rparr>"
      and out = "''<token_3> <token_7>''"
      and g' = "\<lparr>rng_seq = (\<lambda>i. if i = 0 then 7 else 50002), rng_calls = 2\<rparr>"]
  from inst have drop: "detokenize ([1, 3] @ 2 # [7, 2]) = detokenize ([1, 3] @ [7, 2])"
    by blast
  from inst sample_generate have
    "\<not> sublist ''<token_1>'' ''<token_3> <token_7>'' \<and> \<not> sublist ''<token_2>'' ''<token_3> <token_7>''"
    by blast
  with d drop sample_generate show ?thesis by blast
qed

end
